theory Spec2Isabelle
  imports Complex_Main
begin

section \<open>Double precision\<close>

text \<open>
  A C++ \<open>double\<close> is an IEEE 754 binary64 value: a finite number, one of the two
  infinities, or NaN. A finite value is kept as the real number it denotes. The two zeros
  are one value here: no divisor of the program can be a negative zero and the program
  calls no function that tells the zeros apart, so no result depends on the sign of a
  zero. All
  NaNs are one value.

  Every arithmetic operation computes the exact result and rounds it to the nearest
  double, ties to the even significand (\<open>rnd\<close>), with gradual underflow below \<open>2^-1022\<close>
  and overflow to an infinity above \<open>DBL_MAX\<close> (\<open>fin\<close>). Comparisons with NaN are false.
\<close>

datatype double = Fin real | PInf | NInf | NaN

definition DBL_MAX :: real where
  \<comment> \<open>\<open>std::numeric_limits<double>::max()\<close>\<close>
  "DBL_MAX = (2 ^ 53 - 1) * 2 ^ 971"

definition round_half_even :: "real \<Rightarrow> int" where
  "round_half_even q =
     (let f = \<lfloor>q\<rfloor>; d = q - of_int f
      in if d < 1 / 2 then f else if d > 1 / 2 then f + 1 else if even f then f else f + 1)"

definition exponent :: "real \<Rightarrow> int" where
  \<comment> \<open>the binary exponent of the binade of \<open>r\<close>, not below that of the subnormals\<close>
  "exponent r = max \<lfloor>log 2 \<bar>r\<bar>\<rfloor> (- 1022)"

definition ulp :: "real \<Rightarrow> real" where
  \<comment> \<open>the spacing of the doubles in the binade of \<open>r\<close>: 52 fraction bits\<close>
  "ulp r = 2 powi (exponent r - 52)"

definition rnd :: "real \<Rightarrow> real" where
  "rnd r = (if r = 0 then 0 else of_int (round_half_even (r / ulp r)) * ulp r)"

definition fin :: "real \<Rightarrow> double" where
  \<comment> \<open>the double that an operation with exact result \<open>r\<close> delivers\<close>
  "fin r = (if rnd r > DBL_MAX then PInf else if rnd r < - DBL_MAX then NInf else Fin (rnd r))"

fun dneg :: "double \<Rightarrow> double" where
  "dneg (Fin a) = Fin (- a)"
| "dneg PInf = NInf"
| "dneg NInf = PInf"
| "dneg NaN = NaN"

fun dadd :: "double \<Rightarrow> double \<Rightarrow> double" where
  "dadd NaN b = NaN"
| "dadd a NaN = NaN"
| "dadd (Fin a) (Fin b) = fin (a + b)"
| "dadd PInf NInf = NaN"
| "dadd NInf PInf = NaN"
| "dadd PInf b = PInf"
| "dadd NInf b = NInf"
| "dadd a PInf = PInf"
| "dadd a NInf = NInf"

fun dmul :: "double \<Rightarrow> double \<Rightarrow> double" where
  "dmul NaN b = NaN"
| "dmul a NaN = NaN"
| "dmul (Fin a) (Fin b) = fin (a * b)"
| "dmul (Fin a) b = (if a = 0 then NaN else if 0 < a then b else dneg b)"
| "dmul a (Fin b) = (if b = 0 then NaN else if 0 < b then a else dneg a)"
| "dmul PInf b = b"
| "dmul NInf b = dneg b"

fun ddiv :: "double \<Rightarrow> double \<Rightarrow> double" where
  "ddiv NaN b = NaN"
| "ddiv a NaN = NaN"
| "ddiv (Fin a) (Fin b) =
     (if b = 0 then (if a = 0 then NaN else if 0 < a then PInf else NInf) else fin (a / b))"
| "ddiv (Fin a) b = Fin 0"
| "ddiv a (Fin b) = (if b < 0 then dneg a else a)"
| "ddiv a b = NaN"

fun dabs :: "double \<Rightarrow> double" where
  "dabs (Fin a) = Fin \<bar>a\<bar>"
| "dabs PInf = PInf"
| "dabs NInf = PInf"
| "dabs NaN = NaN"

fun dless :: "double \<Rightarrow> double \<Rightarrow> bool" where
  "dless NaN b = False"
| "dless a NaN = False"
| "dless (Fin a) (Fin b) = (a < b)"
| "dless a NInf = False"
| "dless PInf b = False"
| "dless a b = True"

fun dle :: "double \<Rightarrow> double \<Rightarrow> bool" where
  "dle NaN b = False"
| "dle a NaN = False"
| "dle (Fin a) (Fin b) = (a \<le> b)"
| "dle NInf b = True"
| "dle a PInf = True"
| "dle a b = False"

text \<open>
  The operators of the source on doubles. The classes are the syntactic ones: no law of
  arithmetic is assumed for them.
\<close>

instantiation double :: "{zero, one, plus, minus, uminus, times, inverse, abs, ord}"
begin

definition zero_double :: double where "zero_double = Fin 0"
definition one_double :: double where "one_double = Fin 1"
definition plus_double :: "double \<Rightarrow> double \<Rightarrow> double" where "plus_double a b = dadd a b"
definition uminus_double :: "double \<Rightarrow> double" where "uminus_double a = dneg a"
definition minus_double :: "double \<Rightarrow> double \<Rightarrow> double" where "minus_double a b = dadd a (dneg b)"
definition times_double :: "double \<Rightarrow> double \<Rightarrow> double" where "times_double a b = dmul a b"
definition divide_double :: "double \<Rightarrow> double \<Rightarrow> double" where "divide_double a b = ddiv a b"
definition inverse_double :: "double \<Rightarrow> double" where "inverse_double a = ddiv (Fin 1) a"
definition abs_double :: "double \<Rightarrow> double" where "abs_double a = dabs a"
definition less_double :: "double \<Rightarrow> double \<Rightarrow> bool" where "less_double a b = dless a b"
definition less_eq_double :: "double \<Rightarrow> double \<Rightarrow> bool" where "less_eq_double a b = dle a b"

instance ..

end

text \<open>
  \<open>std::sqrt\<close> is correctly rounded. The library functions \<open>std::cos\<close>, \<open>std::sin\<close> and
  \<open>std::tanh\<close> are taken as correctly rounded too; no statement below depends on a value
  of theirs. \<open>std_max\<close> is \<open>std::max\<close>: \<open>(a < b) ? b : a\<close>.
\<close>

fun dsqrt :: "double \<Rightarrow> double" where
  "dsqrt (Fin a) = (if a < 0 then NaN else Fin (rnd (sqrt a)))"
| "dsqrt PInf = PInf"
| "dsqrt NInf = NaN"
| "dsqrt NaN = NaN"

fun dcos :: "double \<Rightarrow> double" where
  "dcos (Fin a) = Fin (rnd (cos a))"
| "dcos a = NaN"

fun dsin :: "double \<Rightarrow> double" where
  "dsin (Fin a) = Fin (rnd (sin a))"
| "dsin a = NaN"

fun dtanh :: "double \<Rightarrow> double" where
  "dtanh (Fin a) = Fin (rnd (tanh a))"
| "dtanh PInf = Fin 1"
| "dtanh NInf = Fin (- 1)"
| "dtanh NaN = NaN"

definition std_max :: "double \<Rightarrow> double \<Rightarrow> double" where
  "std_max a b = (if a < b then b else a)"

text \<open>
  \<open>dbl r\<close> is the double that a literal of decimal value \<open>r\<close> denotes, and also the
  result of converting an integer to \<open>double\<close>. A literal with the suffix \<open>f\<close> is a
  single-precision constant that C++ widens to \<open>double\<close> without change; \<open>0.1f\<close>,
  \<open>0.01f\<close> and \<open>0.8f\<close> are given by their exact values, the other ones of the source
  (\<open>0.0f\<close>, \<open>0.5f\<close>, \<open>2.0f\<close>, \<open>20.0f\<close>, \<open>50.0f\<close>, \<open>100.0f\<close>) are exact in both precisions,
  and so are the products \<open>20.0f * i\<close>, \<open>i * 50.0f\<close> and \<open>0.5f + 0.5f * i\<close> that the presets
  compute in single precision for \<open>i < 10\<close>.
\<close>

definition dbl :: "real \<Rightarrow> double" where
  "dbl r = fin r"

definition float_0_1 :: double where
  \<comment> \<open>\<open>0.1f\<close>, bit pattern 0x3DCCCCCD: 0.100000001490116...\<close>
  "float_0_1 = Fin (13421773 / 134217728)"

definition float_0_01 :: double where
  \<comment> \<open>\<open>0.01f\<close>, bit pattern 0x3C23D70A: 0.00999999977648...\<close>
  "float_0_01 = Fin (5368709 / 536870912)"

definition float_0_8 :: double where
  \<comment> \<open>\<open>0.8f\<close>, bit pattern 0x3F4CCCCD: 0.800000011920929...\<close>
  "float_0_8 = Fin (13421773 / 16777216)"

definition M_PI :: double where
  "M_PI = dbl 3.14159265358979323846"

section \<open>Data model (Gravity.h, GravityMath.h)\<close>

text \<open>\<open>struct Vector { double x; double y; }\<close>: a pair, first component \<open>x\<close>.\<close>

type_synonym Vector = "double \<times> double"

record Body =
  x :: double
  y :: double
  vx :: double
  vy :: double
  ax :: double
  ay :: double
  mass :: double

text \<open>\<open>Body{}\<close>: value initialisation, every field zero.\<close>

definition Body_zero :: Body where
  "Body_zero = \<lparr>x = 0, y = 0, vx = 0, vy = 0, ax = 0, ay = 0, mass = 0\<rparr>"

definition BodyCount :: int where
  "BodyCount = 10"

text \<open>
  The private fields of \<open>class Gravity\<close>, the two arrays as lists (of length 10 in every
  well-formed engine). \<open>math\<close> is stateless and has no field. The last two fields are not
  members of the class: they are the C library's random generator, which \<open>rand()\<close> reads
  and advances. \<open>RAND_MAX\<close> is the library's constant (its value is a parameter here) and
  \<open>rand_seq\<close> is the sequence of numbers that the coming calls of \<open>rand()\<close> return.
\<close>

record Gravity =
  initBodies :: "Body list"
  bodies :: "Body list"
  blackHole :: Body
  G :: double
  dt :: double
  pos_damping :: double
  vel_damping :: double
  softening :: double
  vmin :: double
  vmax :: double
  body_count :: int
  nudge_mode :: bool
  nudge_step :: int
  RAND_MAX :: int
  rand_seq :: "nat \<Rightarrow> int"

definition wellformed :: "Gravity \<Rightarrow> bool" where
  \<comment> \<open>what the array types \<open>Body[BodyCount]\<close> guarantee\<close>
  "wellformed s = (length (initBodies s) = 10 \<and> length (bodies s) = 10)"

definition rand :: "Gravity \<Rightarrow> int \<times> Gravity" where
  "rand s = (rand_seq s 0, s\<lparr>rand_seq := (\<lambda>n. rand_seq s (Suc n))\<rparr>)"

section \<open>Math primitives (GravityMath.cpp)\<close>

definition calcRadiusFromCenter :: "double \<Rightarrow> double \<Rightarrow> double" where
  "calcRadiusFromCenter px py = px * px + py * py"

definition calcRelativePositionVector :: "double \<Rightarrow> double \<Rightarrow> double \<Rightarrow> double \<Rightarrow> Vector" where
  "calcRelativePositionVector x1 y1 x2 y2 = (x2 - x1, y2 - y1)"

definition calcEuclideanDistance :: "double \<Rightarrow> double \<Rightarrow> double" where
  "calcEuclideanDistance dx dy = dsqrt (dx * dx + dy * dy)"

definition calcEuclideanDistance4 :: "double \<Rightarrow> double \<Rightarrow> double \<Rightarrow> double \<Rightarrow> double" where
  \<comment> \<open>the overload on two points\<close>
  "calcEuclideanDistance4 x1 y1 x2 y2 =
     (let v = calcRelativePositionVector x1 y1 x2 y2
      in calcEuclideanDistance (fst v) (snd v))"

definition calcPositionDamping :: "double \<Rightarrow> double \<Rightarrow> double \<Rightarrow> double" where
  "calcPositionDamping px py baseDamping =
     (let dist = dsqrt (px * px + py * py) in baseDamping * (1 + dist))"

definition calcSpeed :: "double \<Rightarrow> double \<Rightarrow> double" where
  "calcSpeed pvx pvy = dsqrt (pvx * pvx + pvy * pvy)"

definition calcAcceleration :: "double \<Rightarrow> double \<Rightarrow> double" where
  "calcAcceleration pax pay = dsqrt (pax * pax + pay * pay)"

definition randomAngle :: "Gravity \<Rightarrow> double \<times> Gravity" where
  "randomAngle s =
     (let (r, s1) = rand s
      in (dbl (real_of_int r) / dbl (real_of_int (RAND_MAX s)) * dbl 2 * M_PI, s1))"

definition randomRange :: "double \<Rightarrow> double \<Rightarrow> Gravity \<Rightarrow> double \<times> Gravity" where
  "randomRange lo hi s =
     (let (r, s1) = rand s
      in (lo + dbl (real_of_int r) / dbl (real_of_int (RAND_MAX s)) * (hi - lo), s1))"

definition randomImpulse :: "double \<Rightarrow> double \<Rightarrow> Gravity \<Rightarrow> Vector \<times> Gravity" where
  "randomImpulse minStrength maxStrength s =
     (let (angle, s1) = randomAngle s;
          (strength, s2) = randomRange minStrength maxStrength s1
      in ((strength * dcos angle, strength * dsin angle), s2))"

definition clampSpeed :: "double \<Rightarrow> double \<Rightarrow> double \<Rightarrow> double \<Rightarrow> Vector" where
  "clampSpeed pvx pvy lo hi =
     (let speed = calcSpeed pvx pvy in
      if speed = 0 then (pvx, pvy)
      else if speed < lo then (let scale = lo / speed in (pvx * scale, pvy * scale))
      else if speed > hi then (let scale = hi / speed in (pvx * scale, pvy * scale))
      else (pvx, pvy))"

section \<open>Parameter setters (Gravity.cpp)\<close>

text \<open>
  \<open>pd_error\<close> only reports to the host; a rejected call returns the engine unchanged.
  An integer argument or literal in a place of type \<open>double\<close> is converted (\<open>dbl\<close>).
\<close>

definition initParams :: "Gravity \<Rightarrow> Gravity" where
  "initParams s = s\<lparr>G := dbl 1.0, dt := dbl 0.01, pos_damping := dbl 0.003,
                     vel_damping := dbl 0.005, softening := dbl 0.0, vmin := dbl 1,
                     vmax := dbl 5\<rparr>"

definition resetBodies :: "Gravity \<Rightarrow> Gravity" where
  "resetBodies s =
     fold (\<lambda>i t. t\<lparr>bodies := (bodies t)[i := Body_zero],
                     initBodies := (initBodies t)[i := Body_zero]\<rparr>)
          [0..<nat BodyCount] s"

definition setG :: "double \<Rightarrow> Gravity \<Rightarrow> Gravity" where
  "setG g s = (if g < dbl 0.0 \<or> g > dbl 10.0 then s
               else s\<lparr>G := (if g < float_0_1 then dbl 0.1 else g)\<rparr>)"

definition setDt :: "double \<Rightarrow> Gravity \<Rightarrow> Gravity" where
  "setDt d s = (if d \<le> dbl 0.0 \<or> d > dbl 0.1 then s else s\<lparr>dt := d\<rparr>)"

definition setPosDamping :: "double \<Rightarrow> Gravity \<Rightarrow> Gravity" where
  "setPosDamping damp s =
     (if damp < dbl 0.0 \<or> damp > dbl 0.1 then s else s\<lparr>pos_damping := damp / dbl 10000\<rparr>)"

definition setVelDamping :: "double \<Rightarrow> Gravity \<Rightarrow> Gravity" where
  "setVelDamping damp s =
     (if damp < dbl 0.0 \<or> damp > dbl 0.5 then s else s\<lparr>vel_damping := damp\<rparr>)"

definition setSoftening :: "double \<Rightarrow> Gravity \<Rightarrow> Gravity" where
  "setSoftening sf s = (if sf < dbl 0.0 \<or> sf > dbl 5.0 then s else s\<lparr>softening := sf\<rparr>)"

definition setVmin :: "double \<Rightarrow> Gravity \<Rightarrow> Gravity" where
  "setVmin v s =
     (if v < dbl 0.1 \<or> v > dbl 1000.0 then s
      else (let s1 = s\<lparr>vmin := v\<rparr>
            in if vmax s1 < v then s1\<lparr>vmax := v\<rparr> else s1))"

definition setVmax :: "double \<Rightarrow> Gravity \<Rightarrow> Gravity" where
  "setVmax v s =
     (if v < dbl 1.0 \<or> v > dbl 10000.0 then s
      else (let s1 = s\<lparr>vmax := v\<rparr>
            in if vmin s1 > v then s1\<lparr>vmin := v\<rparr> else s1))"

definition setBodyCount :: "int \<Rightarrow> Gravity \<Rightarrow> Gravity" where
  "setBodyCount count s =
     (if count < 2 \<or> count > BodyCount then s else s\<lparr>body_count := count\<rparr>)"

definition setBodyMass :: "int \<Rightarrow> double \<Rightarrow> Gravity \<Rightarrow> Gravity" where
  "setBodyMass index m s =
     (if index < 0 \<or> index > BodyCount - 1 then s
      else if m < dbl 0.1 \<or> m > dbl 30 then s
      else s\<lparr>bodies := (bodies s)[nat index := (bodies s ! nat index)\<lparr>mass := m\<rparr>]\<rparr>)"

definition setBlackHole :: "double \<Rightarrow> double \<Rightarrow> double \<Rightarrow> Gravity \<Rightarrow> Gravity" where
  "setBlackHole px py m s =
     (if px < dbl (- 500) \<or> px > dbl 500 then s
      else if py < dbl (- 500) \<or> py > dbl 500 then s
      else if m < dbl 0 \<or> m > dbl 10000 then s
      else s\<lparr>blackHole := (blackHole s)\<lparr>x := px, y := py, vx := dbl 0, vy := dbl 0,
                                          ax := dbl 0, ay := dbl 0, mass := m\<rparr>\<rparr>)"

section \<open>Accessors\<close>

definition getG :: "Gravity \<Rightarrow> double" where "getG s = G s"
definition getDt :: "Gravity \<Rightarrow> double" where "getDt s = dt s"
definition getVmin :: "Gravity \<Rightarrow> double" where "getVmin s = vmin s"
definition getVmax :: "Gravity \<Rightarrow> double" where "getVmax s = vmax s"
definition getPosDamping :: "Gravity \<Rightarrow> double" where "getPosDamping s = pos_damping s"
definition getVelDamping :: "Gravity \<Rightarrow> double" where "getVelDamping s = vel_damping s"
definition getSoftening :: "Gravity \<Rightarrow> double" where "getSoftening s = softening s"
definition getBodyCount :: "Gravity \<Rightarrow> int" where "getBodyCount s = body_count s"
definition getBlackHole :: "Gravity \<Rightarrow> Body" where "getBlackHole s = blackHole s"

definition getBody :: "int \<Rightarrow> Gravity \<Rightarrow> Body" where
  "getBody index s =
     (if index < 0 \<or> index > BodyCount - 1 then bodies s ! 0 else bodies s ! nat index)"

definition getInitBody :: "int \<Rightarrow> Gravity \<Rightarrow> Body" where
  "getInitBody index s =
     (if index < 0 \<or> index > BodyCount - 1 then initBodies s ! 0
      else initBodies s ! nat index)"

section \<open>Force computation\<close>

text \<open>
  One pair of \<open>computeAcceleration\<close>: the softened squared distance \<open>distSqr\<close> between
  the target and another body, the test that skips the pair, and the statements after the
  test, which add the pair's term to the accumulators \<open>(ax, ay)\<close>. The only division of
  the function is \<open>1.0 / std::sqrt(distSqr)\<close>.
\<close>

definition softenedDistSqr :: "double \<Rightarrow> Body \<Rightarrow> Body \<Rightarrow> double" where
  "softenedDistSqr sf target other =
     (let v = calcRelativePositionVector (x target) (y target) (x other) (y other);
          distance = calcEuclideanDistance (fst v) (snd v);
          currentSoftening = std_max sf (distance * sf)
      in fst v * fst v + snd v * snd v + currentSoftening * currentSoftening)"

definition pairSkipped :: "double \<Rightarrow> Body \<Rightarrow> Body \<Rightarrow> bool" where
  "pairSkipped sf target other =
     (softenedDistSqr sf target other \<le> dbl 0.0
      \<or> softenedDistSqr sf target other < dbl 0.0001)"

definition accumulatePair :: "Gravity \<Rightarrow> Body \<Rightarrow> Body \<Rightarrow> Vector \<Rightarrow> Vector" where
  "accumulatePair s target other acc =
     (let v = calcRelativePositionVector (x target) (y target) (x other) (y other) in
      if pairSkipped (softening s) target other then acc
      else (let invDist = dbl 1.0 / dsqrt (softenedDistSqr (softening s) target other);
                invDist3 = invDist * invDist * invDist
            in (fst acc + G s * mass other * fst v * invDist3,
                snd acc + G s * mass other * snd v * invDist3)))"

text \<open>The body of the loop over \<open>i\<close>, with its two earlier \<open>continue\<close>s.\<close>

definition accelerationStep :: "Gravity \<Rightarrow> nat \<Rightarrow> nat \<Rightarrow> Vector \<Rightarrow> Vector" where
  "accelerationStep s targetIndex i acc =
     (if i = targetIndex then acc
      else (let target = bodies s ! targetIndex;
                other = (if int i < body_count s then bodies s ! i else blackHole s)
            in if int i = body_count s \<and> mass (blackHole s) = 0 then acc
               else accumulatePair s target other acc))"

definition computeAcceleration :: "Gravity \<Rightarrow> nat \<Rightarrow> Vector" where
  "computeAcceleration s targetIndex =
     fold (accelerationStep s targetIndex) [0..<nat (body_count s + 1)] (dbl 0, dbl 0)"

section \<open>Body configuration, reset and nudge\<close>

text \<open>
  \<open>initBody\<close> is private and is only called with an index in \<open>[0, 9]\<close>, so its index is
  a \<open>nat\<close>; the public operations take the \<open>int\<close> of the source and check it.
\<close>

definition initBody :: "nat \<Rightarrow> Gravity \<Rightarrow> Gravity" where
  "initBody index s =
     (let body = bodies s ! index;
          v = computeAcceleration s index;
          pdamp = calcPositionDamping (x body) (y body) (pos_damping s)
      in s\<lparr>bodies := (bodies s)[index := body\<lparr>ax := fst v - x body * pdamp,
                                                ay := snd v - y body * pdamp\<rparr>]\<rparr>)"

definition setBody :: "int \<Rightarrow> double \<Rightarrow> double \<Rightarrow> double \<Rightarrow> double \<Rightarrow> double \<Rightarrow> Gravity \<Rightarrow> Gravity" where
  "setBody index px py pvx pvy m s =
     (if index < 0 \<or> index > BodyCount - 1 then s
      else (let i = nat index;
                body = bodies s ! i;
                iBody = initBodies s ! i
            in initBody i
                 (s\<lparr>bodies := (bodies s)[i := body\<lparr>x := px, y := py, vx := pvx, vy := pvy,
                                                     mass := m\<rparr>],
                    initBodies := (initBodies s)[i := iBody\<lparr>x := px, y := py, vx := pvx,
                                                            vy := pvy, mass := m,
                                                            ax := dbl 0, ay := dbl 0\<rparr>]\<rparr>)))"

text \<open>One iteration of the loop of \<open>reset\<close>: six fields are copied, \<open>mass\<close> is not.\<close>

definition resetBody :: "nat \<Rightarrow> Gravity \<Rightarrow> Gravity" where
  "resetBody i s =
     (let body = bodies s ! i;
          iBody = initBodies s ! i
      in initBody i
           (s\<lparr>bodies := (bodies s)[i := body\<lparr>x := x iBody, y := y iBody,
                                               vx := vx iBody, vy := vy iBody,
                                               ax := ax iBody, ay := ay iBody\<rparr>]\<rparr>))"

definition reset :: "Gravity \<Rightarrow> Gravity" where
  "reset s = fold resetBody [0..<10] s"

definition nudge :: "Gravity \<Rightarrow> Gravity" where
  "nudge s = s\<lparr>nudge_mode := True\<rparr>"

section \<open>The integration step\<close>

definition computeAdaptiveDt :: "Gravity \<Rightarrow> double" where
  "computeAdaptiveDt s =
     (let n = nat (body_count s);
          minDist =
            fold (\<lambda>i m.
                    fold (\<lambda>j m1.
                            (let dist = calcEuclideanDistance4 (x (bodies s ! i)) (y (bodies s ! i))
                                          (x (bodies s ! j)) (y (bodies s ! j))
                             in if dist < m1 then dist else m1))
                         [i + 1..<n] m)
                 [0..<n] (Fin DBL_MAX);
          scale = float_0_8 + float_0_8 * dtanh (minDist * dbl 0.8);
          dampDt = dt s * scale
      in std_max dampDt (dbl 0.001))"

text \<open>One iteration of the loop of \<open>applyMinSpeed\<close>.\<close>

definition applyMinSpeedBody :: "nat \<Rightarrow> Gravity \<Rightarrow> Gravity" where
  "applyMinSpeedBody i s =
     (let body = bodies s ! i;
          r = calcRadiusFromCenter (x body) (y body)
      in if r < dbl 100.0 * dbl 100.0 then s
         else (let v = calcSpeed (vx body) (vy body);
                   a = calcAcceleration (ax body) (ay body)
               in if v < vmin s \<and> a < float_0_01
                  then (let (imp, s1) = randomImpulse (dbl 0.02) (dbl 0.07) s
                        in s1\<lparr>bodies := (bodies s1)[i := body\<lparr>vx := vx body + fst imp,
                                                                  vy := vy body + snd imp\<rparr>]\<rparr>)
                  else s))"

definition applyMinSpeed :: "Gravity \<Rightarrow> Gravity" where
  "applyMinSpeed s = fold applyMinSpeedBody [0..<nat (body_count s)] s"

text \<open>
  One iteration of the loop over the neighbours \<open>j\<close> in \<open>applyCloseBodyRepulsion\<close>.
  \<open>body\<close> is a reference to \<open>bodies[index]\<close>, so every iteration reads the record as the
  earlier ones left it.
\<close>

definition repulsionStep :: "nat \<Rightarrow> double \<Rightarrow> double \<Rightarrow> nat \<Rightarrow> Gravity \<Rightarrow> Gravity" where
  "repulsionStep index repel_zone repel_max j s =
     (if j = index then s
      else (let body = bodies s ! index;
                nbbody = (if int j < body_count s then bodies s ! j else blackHole s)
            in if int j = body_count s \<and> mass (blackHole s) = 0 then s
               else (let v = calcRelativePositionVector (x nbbody) (y nbbody) (x body) (y body)
                     in if \<bar>fst v\<bar> > repel_zone \<or> \<bar>snd v\<bar> > repel_zone then s
                        else (let dist_sqr = fst v * fst v + snd v * snd v
                              in if dist_sqr \<ge> repel_zone * repel_zone then s
                                 else (let dist = dsqrt dist_sqr + dbl 0.000001;
                                           norm = dbl 1.0 / dist;
                                           factor = (repel_zone - dist) / repel_zone;
                                           base_strength = repel_max * factor * factor;
                                           (r, s1) = rand s;
                                           jitter = (dbl (real_of_int r) / dbl (real_of_int (RAND_MAX s))
                                                       - dbl 0.5) * base_strength * dbl 2.0;
                                           fx = (base_strength + jitter) * fst v * norm;
                                           fy = (base_strength + jitter) * snd v * norm
                                       in s1\<lparr>bodies := (bodies s1)[index :=
                                                body\<lparr>ax := ax body - fx, ay := ay body - fy\<rparr>]\<rparr>)))))"

definition applyCloseBodyRepulsion ::
  "int \<Rightarrow> double \<Rightarrow> double \<Rightarrow> double \<Rightarrow> double \<Rightarrow> Gravity \<Rightarrow> Gravity" where
  "applyCloseBodyRepulsion index v_min a_min repel_zone repel_max s =
     (if index < 0 \<or> index \<ge> body_count s then s
      else (let i = nat index;
                body = bodies s ! i;
                r = calcRadiusFromCenter (x body) (y body)
            in if r < dbl 100.0 * dbl 100.0 then s
               else (let v = calcSpeed (vx body) (vy body);
                         acc = calcAcceleration (ax body) (ay body);
                         isStagnating = (v < v_min \<and> acc < a_min)
                     in if \<not> isStagnating then s
                        else (let (r1, s1) = rand s;
                                  angle = dbl (real_of_int r1) / dbl (real_of_int (RAND_MAX s))
                                            * dbl 2.0 * M_PI;
                                  (r2, s2) = rand s1;
                                  impulse = dbl 0.02 + dbl (real_of_int r2)
                                              / dbl (real_of_int (RAND_MAX s)) * dbl 0.05;
                                  s3 = s2\<lparr>bodies := (bodies s2)[i :=
                                          body\<lparr>vx := vx body + impulse * dcos angle,
                                               vy := vy body + impulse * dsin angle\<rparr>]\<rparr>
                              in fold (repulsionStep i repel_zone repel_max)
                                      [0..<nat (body_count s + 1)] s3))))"

text \<open>The three loops of \<open>simulate\<close>, one iteration each.\<close>

definition positionStep :: "double \<Rightarrow> nat \<Rightarrow> Gravity \<Rightarrow> Gravity" where
  "positionStep currentDt i s =
     (let body = bodies s ! i
      in s\<lparr>bodies := (bodies s)[i :=
            body\<lparr>x := x body + (vx body * currentDt + dbl 0.5 * ax body * currentDt * currentDt),
                 y := y body + (vy body * currentDt + dbl 0.5 * ay body * currentDt * currentDt)\<rparr>]\<rparr>)"

definition accelerateStep :: "nat \<Rightarrow> Gravity \<Rightarrow> Gravity" where
  "accelerateStep i s =
     (let body = bodies s ! i;
          v = computeAcceleration s i;
          pdamp = calcPositionDamping (x body) (y body) (pos_damping s);
          s1 = s\<lparr>bodies := (bodies s)[i := body\<lparr>ax := fst v - x body * pdamp,
                                                   ay := snd v - y body * pdamp\<rparr>]\<rparr>
      in applyCloseBodyRepulsion (int i) (dbl 0.02) (dbl 0.001) (dbl 1.0) (dbl 0.1) s1)"

text \<open>
  The nudge block of the velocity loop, on the record that \<open>body\<close> refers to: the test
  \<open>nudge_step == 20\<close> is inside the block that \<open>nudge_mode\<close> has already opened, so the
  override and the increment happen in the iteration that disarms the mode too.
\<close>

definition nudgeBlock :: "Body \<Rightarrow> Gravity \<Rightarrow> Body \<times> Gravity" where
  "nudgeBlock body s =
     (if nudge_mode s
      then (let s1 = (if nudge_step s = 20 then s\<lparr>nudge_mode := False, nudge_step := 0\<rparr> else s);
                nudge_factor = dbl 10 * (dbl 5.0 + pos_damping s1);
                (v, s2) = randomImpulse (- nudge_factor / dbl 2) (nudge_factor / dbl 2) s1
            in (body\<lparr>vx := fst v, vy := snd v\<rparr>, s2\<lparr>nudge_step := nudge_step s2 + 1\<rparr>))
      else (body, s))"

definition velocityStep :: "double \<Rightarrow> double list \<Rightarrow> double list \<Rightarrow> nat \<Rightarrow> Gravity \<Rightarrow> Gravity" where
  "velocityStep currentDt oldAx oldAy i s =
     (let body = bodies s ! i;
          body1 = body\<lparr>vx := vx body + dbl 0.5 * (oldAx ! i + ax body) * currentDt,
                       vy := vy body + dbl 0.5 * (oldAy ! i + ay body) * currentDt\<rparr>;
          (body2, s2) = nudgeBlock body1 s;
          speed = calcSpeed (vx body2) (vy body2);
          vdamp = vel_damping s2 * (dbl 1.0 + speed);
          body3 = body2\<lparr>vx := vx body2 * (dbl 1.0 - vdamp), vy := vy body2 * (dbl 1.0 - vdamp)\<rparr>;
          v = clampSpeed (vx body3) (vy body3) (vmin s2) (vmax s2)
      in s2\<lparr>bodies := (bodies s2)[i := body3\<lparr>vx := fst v, vy := snd v\<rparr>]\<rparr>)"

definition simulate :: "Gravity \<Rightarrow> Gravity" where
  "simulate s =
     (let n = nat (body_count s);
          currentDt = computeAdaptiveDt s;
          s1 = fold (positionStep currentDt) [0..<n] s;
          oldAx = map (\<lambda>i. ax (bodies s1 ! i)) [0..<n];
          oldAy = map (\<lambda>i. ay (bodies s1 ! i)) [0..<n];
          s2 = fold accelerateStep [0..<n] s1;
          s3 = fold (velocityStep currentDt oldAx oldAy) [0..<n] s2
      in applyMinSpeed s3)"

section \<open>Presets\<close>

text \<open>
  A case of the \<open>switch\<close> of \<open>loadPreset\<close> is a sequence of calls on the engine;
  \<open>calls\<close> runs such a sequence in the order it is written. In case 5 the source applies
  \<open>%\<close> to the result of \<open>rand()\<close>, which is never negative, so \<open>mod\<close> agrees with it.
  The products \<open>20.0f * i\<close> and \<open>i * 50.0f\<close> and the sum \<open>0.5f + 0.5f * i\<close> are
  single-precision operations whose results, for the indices of their loops, are multiples
  of one half below 1000: they are exact in single and in double precision alike.
\<close>

definition calls :: "(Gravity \<Rightarrow> Gravity) list \<Rightarrow> Gravity \<Rightarrow> Gravity" where
  "calls fs s = fold (\<lambda>f t. f t) fs s"

definition preset_case0 :: "Gravity \<Rightarrow> Gravity" where
  \<comment> \<open>Simple rotating ring around massive center\<close>
  "preset_case0 =
   calls [setG (dbl 0.1),
          setDt (dbl 0.01),
          setSoftening (dbl 0),
          setPosDamping (dbl 0.02),
          setVelDamping (dbl 0.005),
          setBodyCount 10,
          setBody 0 (dbl 50) (dbl 0) (dbl 0) (dbl 0.4) (dbl 1),
          setBody 1 (dbl 40) (dbl 40) (dbl (- 0.3)) (dbl 0.3) (dbl 1),
          setBody 2 (dbl 0) (dbl 50) (dbl (- 0.4)) (dbl 0) (dbl 1),
          setBody 3 (dbl (- 40)) (dbl 40) (dbl (- 0.3)) (dbl (- 0.3)) (dbl 1),
          setBody 4 (dbl (- 50)) (dbl 0) (dbl 0) (dbl (- 0.4)) (dbl 1),
          setBody 5 (dbl (- 40)) (dbl (- 40)) (dbl 0.3) (dbl (- 0.3)) (dbl 1),
          setBody 6 (dbl 0) (dbl (- 50)) (dbl 0.4) (dbl 0) (dbl 1),
          setBody 7 (dbl 40) (dbl (- 8)) (dbl 0.3) (dbl 0.3) (dbl 1),
          setBody 8 (dbl 0) (dbl 0) (dbl 0) (dbl 0) (dbl 3),
          setBody 9 (dbl 0) (dbl 30) (dbl 0) (dbl 0) (dbl 0.5)]"

definition preset_case1 :: "Gravity \<Rightarrow> Gravity" where
  \<comment> \<open>Asymmetric cluster with slow drift\<close>
  "preset_case1 =
   calls [setG (dbl 0.1),
          setDt (dbl 0.01),
          setSoftening (dbl 0),
          setPosDamping (dbl 0.02),
          setVelDamping (dbl 0.01),
          setBodyCount 10,
          setBody 0 (dbl 50) (dbl 20) (dbl 0.1) (dbl 0.05) (dbl 1),
          setBody 1 (dbl (- 40)) (dbl (- 10)) (dbl (- 0.1)) (dbl 0.1) (dbl 1),
          setBody 2 (dbl (- 60)) (dbl 70) (dbl 0.1) (dbl (- 0.05)) (dbl 1),
          setBody 3 (dbl 30) (dbl (- 60)) (dbl (- 0.1)) (dbl (- 0.1)) (dbl 1),
          setBody 4 (dbl 10) (dbl 10) (dbl 0) (dbl 0) (dbl 2),
          setBody 5 (dbl (- 10)) (dbl (- 40)) (dbl 0.05) (dbl 0) (dbl 0.8),
          setBody 6 (dbl 0) (dbl (- 70)) (dbl 0) (dbl 0.1) (dbl 0.8),
          setBody 7 (dbl (- 80)) (dbl 20) (dbl 0.1) (dbl 0) (dbl 0.8),
          setBody 8 (dbl 70) (dbl (- 20)) (dbl (- 0.05)) (dbl 0.1) (dbl 0.8),
          setBody 9 (dbl 0) (dbl 0) (dbl 0) (dbl 0) (dbl 3)]"

definition preset_case2 :: "Gravity \<Rightarrow> Gravity" where
  \<comment> \<open>Spiral start with mild rotation\<close>
  "preset_case2 =
   calls [setG (dbl 0.1),
          setDt (dbl 0.01),
          setSoftening (dbl 0),
          setPosDamping (dbl 0.02),
          setVelDamping (dbl 0.01),
          setBodyCount 10,
          fold (\<lambda>i. let angle = dbl (real i) * dbl 0.6;
                        radius = dbl 20.0 * dbl (real i);
                        px = dcos angle * radius;
                        py = dsin angle * radius;
                        pvx = - dsin angle * dbl 0.2;
                        pvy = dcos angle * dbl 0.2
                    in setBody (int i) px py pvx pvy (dbl 1.0)) [0..<10]]"

definition preset_case3 :: "Gravity \<Rightarrow> Gravity" where
  \<comment> \<open>Symmetrical cross\<close>
  "preset_case3 =
   calls [setG (dbl 0.3),
          setDt (dbl 0.008),
          setSoftening (dbl 0),
          setPosDamping (dbl 0.02),
          setVelDamping (dbl 0.01),
          setBodyCount 10,
          fold (\<lambda>i t. setBody (int i + 5) (dbl (real i) * dbl 50.0 - dbl 100.0) (dbl 0)
                           (dbl 0) (dbl (- 0.2)) (dbl 1.0)
                         (setBody (int i) (dbl 0) (dbl (real i) * dbl 50.0 - dbl 100.0)
                            (dbl 0.2) (dbl 0) (dbl 1.0) t)) [0..<5]]"

definition preset_case4 :: "Gravity \<Rightarrow> Gravity" where
  \<comment> \<open>Circular orbit with center mass\<close>
  "preset_case4 =
   calls [setG (dbl 0.1),
          setDt (dbl 0.02),
          setSoftening (dbl 0.5),
          setPosDamping (dbl 0.02),
          setVelDamping (dbl 0.002),
          setBodyCount 10,
          fold (\<lambda>i. let angle = dbl 2 * M_PI * dbl (real i) / dbl 9.0;
                        px = dbl 100.0 * dcos angle;
                        py = dbl 100.0 * dsin angle;
                        pvx = - dsin angle * dbl 0.5;
                        pvy = dcos angle * dbl 0.5
                    in setBody (int i) px py pvx pvy (dbl 1.0)) [0..<10],
          setBody 9 (dbl 0) (dbl 0) (dbl 0) (dbl 0) (dbl 5)]"

definition preset_case5 :: "Gravity \<Rightarrow> Gravity" where
  \<comment> \<open>Random cluster\<close>
  "preset_case5 =
   calls [setG (dbl 0.5),
          setDt (dbl 0.01),
          setSoftening (dbl 0.4),
          setPosDamping (dbl 0.02),
          setVelDamping (dbl 0.01),
          setBodyCount BodyCount,
          fold (\<lambda>i t. let (r1, t1) = rand t;
                          px = dbl (real_of_int (r1 mod 200 - 100));
                          (r2, t2) = rand t1;
                          py = dbl (real_of_int (r2 mod 200 - 100));
                          (r3, t3) = rand t2;
                          pvx = dbl (real_of_int (r3 mod 200 - 100)) * dbl 0.005;
                          (r4, t4) = rand t3;
                          pvy = dbl (real_of_int (r4 mod 200 - 100)) * dbl 0.005;
                          (r5, t5) = rand t4
                      in setBody (int i) px py pvx pvy
                           (dbl 0.5 + dbl (real_of_int (r5 mod 100)) * dbl 0.01) t5)
               [0..<nat BodyCount]]"

definition preset_case6 :: "Gravity \<Rightarrow> Gravity" where
  \<comment> \<open>Two binary systems plus orbiters\<close>
  "preset_case6 =
   calls [setG (dbl 0.2),
          setDt (dbl 0.01),
          setSoftening (dbl 0),
          setPosDamping (dbl 0.02),
          setVelDamping (dbl 0.005),
          setBodyCount 10,
          setBody 0 (dbl (- 50)) (dbl 0) (dbl 0) (dbl 0.3) (dbl 1),
          setBody 1 (dbl (- 30)) (dbl 0) (dbl 0) (dbl (- 0.3)) (dbl 1),
          setBody 2 (dbl 50) (dbl 0) (dbl 0) (dbl (- 0.3)) (dbl 1),
          setBody 3 (dbl 30) (dbl 0) (dbl 0) (dbl 0.3) (dbl 1),
          setBody 4 (dbl 0) (dbl 80) (dbl (- 0.3)) (dbl 0) (dbl 1),
          setBody 5 (dbl 0) (dbl 60) (dbl 0.3) (dbl 0) (dbl 1),
          setBody 6 (dbl 0) (dbl (- 60)) (dbl 0.3) (dbl 0) (dbl 1),
          setBody 7 (dbl 0) (dbl (- 80)) (dbl (- 0.3)) (dbl 0) (dbl 1),
          setBody 8 (dbl 0) (dbl 0) (dbl 0) (dbl 0) (dbl 2),
          setBody 9 (dbl 0) (dbl 20) (dbl 0) (dbl 0) (dbl 0.5)]"

definition preset_case7 :: "Gravity \<Rightarrow> Gravity" where
  \<comment> \<open>Figure-eight approximation\<close>
  "preset_case7 =
   calls [setG (dbl 1),
          setDt (dbl 0.005),
          setSoftening (dbl 0.01),
          setPosDamping (dbl 0),
          setVelDamping (dbl 0),
          setBodyCount 3,
          setBody 0 (dbl 0) (dbl 0) (dbl 0.347111) (dbl 0.532728) (dbl 1),
          setBody 1 (dbl 0.970004) (dbl (- 0.243087)) (dbl (- 0.347111)) (dbl 0.532728) (dbl 1),
          setBody 2 (dbl (- 0.970004)) (dbl 0.243087) (dbl 0) (dbl (- 1.065456)) (dbl 1),
          fold (\<lambda>i. setBody (int i) (dbl 0) (dbl 0) (dbl 0) (dbl 0) (dbl 0))
               [3..<nat BodyCount]]"

definition preset_case8 :: "Gravity \<Rightarrow> Gravity" where
  \<comment> \<open>Line of increasing mass and spacing\<close>
  "preset_case8 =
   calls [setG (dbl 0.15),
          setDt (dbl 0.01),
          setSoftening (dbl 0.2),
          setPosDamping (dbl 0.02),
          setVelDamping (dbl 0.005),
          setBodyCount BodyCount,
          fold (\<lambda>i. let px = dbl (real i) * dbl 50.0;
                        py = dbl 0;
                        pvx = dbl 0;
                        pvy = dbl (real_of_int (int i - 5)) * dbl 0.1;
                        m = dbl 0.5 + dbl 0.5 * dbl (real i)
                    in setBody (int i) px py pvx pvy m) [0..<nat BodyCount]]"

definition preset_case9 :: "Gravity \<Rightarrow> Gravity" where
  \<comment> \<open>Radial outburst from center\<close>
  "preset_case9 =
   calls [setG (dbl 0.2),
          setDt (dbl 0.008),
          setSoftening (dbl 0),
          setPosDamping (dbl 0.02),
          setVelDamping (dbl 0.01),
          setBodyCount BodyCount,
          fold (\<lambda>i. let angle = dbl 2 * M_PI * dbl (real i) / dbl 10.0;
                        pvx = dcos angle * dbl 0.3;
                        pvy = dsin angle * dbl 0.3
                    in setBody (int i) (dbl 0) (dbl 0) pvx pvy (dbl 1.0)) [0..<nat BodyCount]]"

definition preset_case10 :: "Gravity \<Rightarrow> Gravity" where
  \<comment> \<open>Asymetric chaos at high speed\<close>
  "preset_case10 =
   calls [setG (dbl 0.15),
          setDt (dbl 0.01),
          setSoftening (dbl 0.05),
          setPosDamping (dbl 0.02),
          setVelDamping (dbl 0.0005),
          setBodyCount 5,
          setBody 0 (dbl (- 120)) (dbl 80) (dbl 0.9) (dbl (- 0.4)) (dbl 1.5),
          setBody 1 (dbl 100) (dbl 60) (dbl (- 0.5)) (dbl 0.6) (dbl 2),
          setBody 2 (dbl 0) (dbl (- 100)) (dbl 0.4) (dbl 0.8) (dbl 1.2),
          setBody 3 (dbl 50) (dbl 50) (dbl (- 0.9)) (dbl (- 0.2)) (dbl 0.8),
          setBody 4 (dbl (- 70)) (dbl (- 80)) (dbl 0.6) (dbl 0.3) (dbl 1)]"

definition preset_case11 :: "Gravity \<Rightarrow> Gravity" where
  \<comment> \<open>Chaos cluster drift\<close>
  "preset_case11 =
   calls [setG (dbl 0.2),
          setDt (dbl 0.008),
          setSoftening (dbl 0.05),
          setPosDamping (dbl 0.02),
          setVelDamping (dbl 0.001),
          setBodyCount 6,
          setBody 0 (dbl (- 40)) (dbl 20) (dbl 0.5) (dbl 0.4) (dbl 1),
          setBody 1 (dbl 30) (dbl (- 10)) (dbl (- 0.6)) (dbl 0.3) (dbl 1.8),
          setBody 2 (dbl 0) (dbl 0) (dbl 0.1) (dbl (- 0.5)) (dbl 0.6),
          setBody 3 (dbl (- 30)) (dbl (- 30)) (dbl 0.3) (dbl 0.6) (dbl 1.2),
          setBody 4 (dbl 60) (dbl 10) (dbl (- 0.4)) (dbl (- 0.3)) (dbl 1.5),
          setBody 5 (dbl (- 50)) (dbl 40) (dbl 0.7) (dbl (- 0.1)) (dbl 0.9)]"

definition preset_case12 :: "Gravity \<Rightarrow> Gravity" where
  \<comment> \<open>Chaos extreme\<close>
  "preset_case12 =
   calls [setG (dbl 0.25),
          setDt (dbl 0.007),
          setSoftening (dbl 0.07),
          setPosDamping (dbl 0.02),
          setVelDamping (dbl 0.0002),
          setBodyCount 7,
          setBody 0 (dbl (- 200)) (dbl 100) (dbl 1) (dbl (- 0.3)) (dbl 1.2),
          setBody 1 (dbl 180) (dbl 80) (dbl (- 0.8)) (dbl 0.6) (dbl 2.1),
          setBody 2 (dbl 0) (dbl (- 90)) (dbl 0.5) (dbl 0.9) (dbl 0.7),
          setBody 3 (dbl 60) (dbl 200) (dbl (- 1.1)) (dbl (- 0.2)) (dbl 1.4),
          setBody 4 (dbl (- 160)) (dbl (- 150)) (dbl 0.9) (dbl 0.4) (dbl 1),
          setBody 5 (dbl 30) (dbl (- 70)) (dbl (- 0.3)) (dbl (- 0.8)) (dbl 0.8),
          setBody 6 (dbl 90) (dbl 0) (dbl (- 0.5)) (dbl 0.5) (dbl 1.6)]"

definition preset_case13 :: "Gravity \<Rightarrow> Gravity" where
  \<comment> \<open>Chaos: scattered triangle with tangential velocity\<close>
  "preset_case13 =
   calls [setG (dbl 0.15),
          setDt (dbl 0.009),
          setSoftening (dbl 0.05),
          setPosDamping (dbl 0.02),
          setVelDamping (dbl 0.0005),
          setBodyCount 3,
          setBody 0 (dbl (- 100)) (dbl (- 50)) (dbl 0.65) (dbl 0.3) (dbl 1.2),
          setBody 1 (dbl 100) (dbl (- 50)) (dbl (- 0.6)) (dbl 0.35) (dbl 1.8),
          setBody 2 (dbl 0) (dbl 120) (dbl (- 0.05)) (dbl (- 0.7)) (dbl 2)]"

definition applyPreset :: "int \<Rightarrow> Gravity \<Rightarrow> Gravity" where
  \<comment> \<open>the \<open>switch (p)\<close>; its \<open>default\<close> leaves the engine as it is\<close>
  "applyPreset p s =
     (if p = 0 then preset_case0 s
      else if p = 1 then preset_case1 s
      else if p = 2 then preset_case2 s
      else if p = 3 then preset_case3 s
      else if p = 4 then preset_case4 s
      else if p = 5 then preset_case5 s
      else if p = 6 then preset_case6 s
      else if p = 7 then preset_case7 s
      else if p = 8 then preset_case8 s
      else if p = 9 then preset_case9 s
      else if p = 10 then preset_case10 s
      else if p = 11 then preset_case11 s
      else if p = 12 then preset_case12 s
      else if p = 13 then preset_case13 s
      else s)"

definition clampPreset :: "int \<Rightarrow> int" where
  \<comment> \<open>\<open>presetIndex < 1 ? 1 : (presetIndex > 14 ? 14 : presetIndex)\<close>\<close>
  "clampPreset presetIndex =
     (if presetIndex < 1 then 1 else if presetIndex > 14 then 14 else presetIndex)"

definition loadPreset :: "int \<Rightarrow> Gravity \<Rightarrow> Gravity" where
  "loadPreset presetIndex s =
     (let p = clampPreset presetIndex;
          p1 = p - 1
      in applyPreset p1 (resetBodies s))"

text \<open>
  The constructor. The arrays and the black hole are not initialised by it before
  \<open>loadPreset\<close> runs (which zeroes the arrays, but not the black hole), so their first
  contents are whatever the argument holds.
\<close>

definition Gravity_new :: "Gravity \<Rightarrow> Gravity" where
  "Gravity_new s =
     loadPreset 0 (initParams (s\<lparr>body_count := 3, nudge_mode := False, nudge_step := 0\<rparr>))"

section \<open>Sequences of calls\<close>

datatype call =
    SetG double | SetDt double | SetPosDamping double | SetVelDamping double
  | SetSoftening double | SetVmin double | SetVmax double | SetBodyCount int
  | SetBodyMass int double | SetBlackHole double double double
  | SetBody int double double double double double
  | LoadPreset int | Reset | Nudge | Simulate

fun exec :: "call \<Rightarrow> Gravity \<Rightarrow> Gravity" where
  "exec (SetG g) s = setG g s"
| "exec (SetDt d) s = setDt d s"
| "exec (SetPosDamping d) s = setPosDamping d s"
| "exec (SetVelDamping d) s = setVelDamping d s"
| "exec (SetSoftening sf) s = setSoftening sf s"
| "exec (SetVmin v) s = setVmin v s"
| "exec (SetVmax v) s = setVmax v s"
| "exec (SetBodyCount n) s = setBodyCount n s"
| "exec (SetBodyMass i m) s = setBodyMass i m s"
| "exec (SetBlackHole px py m) s = setBlackHole px py m s"
| "exec (SetBody i px py pvx pvy m) s = setBody i px py pvx pvy m s"
| "exec (LoadPreset i) s = loadPreset i s"
| "exec Reset s = reset s"
| "exec Nudge s = nudge s"
| "exec Simulate s = simulate s"

definition execs :: "call list \<Rightarrow> Gravity \<Rightarrow> Gravity" where
  "execs cs s = fold exec cs s"

section \<open>Auxiliary definitions\<close>

text \<open>
  Two views of an engine, used to state what an operation leaves alone. \<open>others\<close> blanks
  what a simulation step may write (the live array, the nudge bookkeeping, the random
  generator's position), so two engines with the same \<open>others\<close> agree on every other field.
  \<open>inert n\<close> is the size of the live array and its records from index \<open>n\<close> on.
\<close>

definition others :: "Gravity \<Rightarrow> Gravity" where
  "others s = s\<lparr>bodies := [], nudge_mode := False, nudge_step := 0, rand_seq := (\<lambda>_. 0)\<rparr>"

definition inert :: "nat \<Rightarrow> Gravity \<Rightarrow> nat \<times> Body list" where
  "inert n s = (length (bodies s), drop n (bodies s))"

text \<open>
  A concrete engine: the parameters of \<open>initParams\<close>, three active bodies, zeroed
  storage, no nudge, and a random generator that always returns 0.
\<close>

definition engine0 :: Gravity where
  "engine0 = \<lparr>initBodies = replicate 10 Body_zero, bodies = replicate 10 Body_zero,
               blackHole = Body_zero, G = dbl 1, dt = dbl 0.01,
               pos_damping = dbl 0.003, vel_damping = dbl 0.005, softening = dbl 0,
               vmin = dbl 1, vmax = dbl 5, body_count = 3,
               nudge_mode = False, nudge_step = 0, RAND_MAX = 2147483647,
               rand_seq = (\<lambda>_. 0)\<rparr>"

text \<open>
  \<open>config\<close> blanks the two arrays: what configuring a body and \<open>reset\<close> leave alone.
  \<open>nudgeState\<close> is the nudge bookkeeping, and \<open>nudgeTick\<close> is what one pass through the
  nudge block of the velocity loop does to it (read off \<open>nudgeBlock\<close>).
\<close>

definition config :: "Gravity \<Rightarrow> Gravity" where
  "config s = s\<lparr>bodies := [], initBodies := []\<rparr>"

definition nudgeState :: "Gravity \<Rightarrow> bool \<times> int" where
  "nudgeState s = (nudge_mode s, nudge_step s)"

definition nudgeTick :: "bool \<times> int \<Rightarrow> bool \<times> int" where
  "nudgeTick p = (if fst p then (if snd p = 20 then (False, 1) else (True, snd p + 1)) else p)"

text \<open>
  Two active bodies of masses 1 and 2, both at the origin, and no black hole; and a
  constructed engine with \<open>G = 10\<close>, softening \<open>0.5\<close> and two active bodies of mass
  \<open>2 ^ 1022\<close> (about \<open>4.49e307\<close>), both at the origin.
\<close>

definition two_at_origin :: Gravity where
  "two_at_origin = engine0\<lparr>body_count := 2,
     bodies := (bodies engine0)[0 := Body_zero\<lparr>mass := dbl 1\<rparr>, 1 := Body_zero\<lparr>mass := dbl 2\<rparr>]\<rparr>"

definition heavy_pair :: Gravity where
  "heavy_pair = execs [SetBodyCount 2, SetG (dbl 10), SetSoftening (dbl 0.5),
                       SetBlackHole 0 0 0,
                       SetBody 0 0 0 0 0 (Fin (2 ^ 1022)), SetBody 1 0 0 0 0 (Fin (2 ^ 1022))]
                  (Gravity_new engine0)"

text \<open>
  The calls that configure slot \<open>i\<close>, that is, write its initial record: \<open>setBody\<close> on
  that slot, and \<open>loadPreset\<close>, which zeroes every record and then configures the slots
  of its preset.
\<close>

fun configures :: "nat \<Rightarrow> call \<Rightarrow> bool" where
  "configures i (SetBody j _ _ _ _ _) = (j = int i)"
| "configures i (LoadPreset _) = True"
| "configures i _ = False"

text \<open>
  The assignments that \<open>setBody\<close> and the loop body of \<open>reset\<close> make before they call
  \<open>initBody\<close>: \<open>setBody\<close> is \<open>initBody\<close> after \<open>writeBody\<close>, and one iteration of \<open>reset\<close>
  is \<open>initBody\<close> after \<open>copyInitial\<close>.
\<close>

definition writeBody :: "nat \<Rightarrow> double \<Rightarrow> double \<Rightarrow> double \<Rightarrow> double \<Rightarrow> double \<Rightarrow> Gravity \<Rightarrow> Gravity" where
  "writeBody i px py pvx pvy m s =
     s\<lparr>bodies := (bodies s)[i := (bodies s ! i)\<lparr>x := px, y := py, vx := pvx, vy := pvy,
                                                 mass := m\<rparr>],
       initBodies := (initBodies s)[i := (initBodies s ! i)\<lparr>x := px, y := py, vx := pvx,
                                                             vy := pvy, mass := m,
                                                             ax := dbl 0, ay := dbl 0\<rparr>]\<rparr>"

definition copyInitial :: "nat \<Rightarrow> Gravity \<Rightarrow> Gravity" where
  "copyInitial i s =
     s\<lparr>bodies := (bodies s)[i := (bodies s ! i)\<lparr>x := x (initBodies s ! i),
                                                 y := y (initBodies s ! i),
                                                 vx := vx (initBodies s ! i),
                                                 vy := vy (initBodies s ! i),
                                                 ax := ax (initBodies s ! i),
                                                 ay := ay (initBodies s ! i)\<rparr>]\<rparr>"

section \<open>Double arithmetic\<close>

text \<open>
  Rounding is evaluated from the binade of its argument: when \<open>2 powi e \<le> \<bar>r\<bar>\<close> and
  \<open>\<bar>r\<bar> < 2 powi (e + 1)\<close> in the normal range, and \<open>n\<close> is the integer nearest to
  \<open>r / 2 powi (e - 52)\<close>, then \<open>r\<close> rounds to \<open>n * 2 powi (e - 52)\<close>.
\<close>

lemma rnd_0 [simp]: "rnd 0 = 0"
  by (simp add: rnd_def)

lemma DBL_MAX_pos: "0 < DBL_MAX"
  by (simp add: DBL_MAX_def)

lemma fin_0 [simp]: "fin 0 = Fin 0"
  using DBL_MAX_pos by (simp add: fin_def)

lemma ulp_pos: "0 < ulp r"
  by (simp add: ulp_def)

lemma floor_log2_eq:
  assumes "2 powi e \<le> \<bar>r\<bar>" "\<bar>r\<bar> < 2 powi (e + 1)"
  shows "\<lfloor>log 2 \<bar>r\<bar>\<rfloor> = e"
proof -
  have p: "0 < \<bar>r\<bar>" using assms(1) by (smt (verit) zero_less_power_int)
  have "(2::real) powr (real_of_int e) = 2 powi e"
       "(2::real) powr (real_of_int e + 1) = 2 powi (e + 1)"
    using powr_real_of_int'[of "2::real" e] powr_real_of_int'[of "2::real" "e + 1"]
    by simp_all
  then have "2 powr (real_of_int e) \<le> \<bar>r\<bar>" "\<bar>r\<bar> < 2 powr (real_of_int e + 1)"
    using assms by simp_all
  then show ?thesis using p
    by (subst floor_log_eq_powr_iff) simp_all
qed

lemma round_half_even_near:
  assumes "\<bar>q - of_int n\<bar> < 1 / 2"
  shows "round_half_even q = n"
proof -
  have b: "of_int n - 1 / 2 < q" "q < of_int n + 1 / 2"
    using assms unfolding abs_diff_less_iff by simp_all
  have "\<lfloor>q\<rfloor> = n \<or> \<lfloor>q\<rfloor> = n - 1" using b by linarith
  then show ?thesis
  proof
    assume f: "\<lfloor>q\<rfloor> = n"
    have "q - of_int \<lfloor>q\<rfloor> < 1 / 2" using b unfolding f by linarith
    then show ?thesis by (simp add: round_half_even_def Let_def f)
  next
    assume f: "\<lfloor>q\<rfloor> = n - 1"
    have "q - of_int \<lfloor>q\<rfloor> > 1 / 2" using b unfolding f by simp
    then show ?thesis using f by (simp add: round_half_even_def Let_def)
  qed
qed

lemma round_half_even_le:
  assumes "q \<le> of_int m"
  shows "round_half_even q \<le> m"
proof -
  have "\<lfloor>q\<rfloor> \<le> m" using assms by linarith
  moreover have "q - of_int \<lfloor>q\<rfloor> > 0 \<Longrightarrow> \<lfloor>q\<rfloor> + 1 \<le> m" using assms by linarith
  ultimately show ?thesis by (auto simp add: round_half_even_def Let_def)
qed

lemma round_half_even_ge:
  assumes "of_int m \<le> q"
  shows "m \<le> round_half_even q"
proof -
  have "m \<le> \<lfloor>q\<rfloor>" using assms by linarith
  then show ?thesis by (auto simp add: round_half_even_def Let_def)
qed

lemma exponent_eq:
  assumes "2 powi e \<le> \<bar>r\<bar>" "\<bar>r\<bar> < 2 powi (e + 1)" "- 1022 \<le> e"
  shows "exponent r = e"
  using floor_log2_eq[OF assms(1,2)] assms(3) by (simp add: exponent_def)

lemma rnd_eval:
  assumes "2 powi e \<le> \<bar>r\<bar>" "\<bar>r\<bar> < 2 powi (e + 1)" "- 1022 \<le> e"
    and "\<bar>r / 2 powi (e - 52) - of_int n\<bar> < 1 / 2"
  shows "rnd r = of_int n * 2 powi (e - 52)"
proof -
  have "r \<noteq> 0" using assms(1) by (smt (verit) zero_less_power_int abs_zero)
  then show ?thesis
    using round_half_even_near[OF assms(4)]
    by (simp add: rnd_def ulp_def exponent_eq[OF assms(1-3)])
qed

lemma pow_1023_le_DBL_MAX: "2 powi 1023 \<le> DBL_MAX"
  by (simp add: DBL_MAX_def)

lemma rnd_eval_bound:
  assumes "2 powi e \<le> \<bar>r::real\<bar>" "\<bar>r\<bar> < 2 powi (e + 1)" "- 1022 \<le> e"
    and "\<bar>r / 2 powi (e - 52) - of_int n\<bar> < 1 / 2"
  shows "\<bar>real_of_int n * 2 powi (e - 52)\<bar> \<le> 2 powi (e + 1)"
proof -
  let ?u = "(2::real) powi (e - 52)"
  have u: "0 < ?u" by simp
  have s: "(2::real) powi (e + 1) = 2 ^ 53 * ?u"
    by (simp add: power_int_diff power_int_add)
  have "\<bar>r\<bar> / ?u < 2 ^ 53"
    using assms(2) u unfolding s by (simp add: pos_divide_less_eq)
  then have q: "\<bar>r / ?u\<bar> < 9007199254740992" by simp
  have "\<bar>real_of_int n\<bar> < 9007199254740993" using q assms(4) by linarith
  then have "real_of_int \<bar>n\<bar> < real_of_int 9007199254740993" by simp
  then have "\<bar>n\<bar> < 9007199254740993" by (simp only: of_int_less_iff)
  then have "\<bar>n\<bar> \<le> 9007199254740992" by simp
  then have "real_of_int \<bar>n\<bar> \<le> real_of_int 9007199254740992" by (simp only: of_int_le_iff)
  then have "\<bar>real_of_int n\<bar> \<le> 2 ^ 53" by simp
  then have "\<bar>real_of_int n\<bar> * ?u \<le> 2 ^ 53 * ?u"
    using u by (simp only: mult_le_cancel_right_pos)
  then show ?thesis unfolding s by (simp add: abs_mult)
qed

lemma fin_eval:
  assumes "2 powi e \<le> \<bar>r\<bar>" "\<bar>r\<bar> < 2 powi (e + 1)" "- 1022 \<le> e" "e \<le> 1022"
    and "\<bar>r / 2 powi (e - 52) - of_int n\<bar> < 1 / 2"
    and "v = of_int n * 2 powi (e - 52)"
  shows "fin r = Fin v"
proof -
  have r: "rnd r = v" using rnd_eval[OF assms(1-3,5)] assms(6) by simp
  have "\<bar>v\<bar> \<le> 2 powi (e + 1)" using rnd_eval_bound[OF assms(1-3,5)] assms(6) by simp
  also have "\<dots> \<le> 2 powi 1023" using assms(4) by (intro power_int_increasing) simp_all
  finally have "\<bar>v\<bar> \<le> DBL_MAX" using pow_1023_le_DBL_MAX by linarith
  then show ?thesis unfolding fin_def r by (simp add: abs_le_iff)
qed


lemma zero_double [simp]: "(0::double) = Fin 0"
  by (simp add: zero_double_def)

lemma one_double [simp]: "(1::double) = Fin 1"
  by (simp add: one_double_def)

lemma Fin_plus [simp]: "Fin a + Fin b = fin (a + b)"
  by (simp add: plus_double_def)

lemma Fin_minus [simp]: "Fin a - Fin b = fin (a - b)"
  by (simp add: minus_double_def)

lemma Fin_uminus [simp]: "- Fin a = Fin (- a)"
  by (simp add: uminus_double_def)

lemma Fin_times [simp]: "Fin a * Fin b = fin (a * b)"
  by (simp add: times_double_def)

lemma Fin_divide [simp]: "b \<noteq> 0 \<Longrightarrow> Fin a / Fin b = fin (a / b)"
  by (simp add: divide_double_def)

lemma Fin_less [simp]: "(Fin a < Fin b) = (a < b)"
  by (simp add: less_double_def)

lemma Fin_le [simp]: "(Fin a \<le> Fin b) = (a \<le> b)"
  by (simp add: less_eq_double_def)

lemma NaN_less [simp]: "\<not> NaN < a" "\<not> a < NaN" "\<not> NaN \<le> a" "\<not> a \<le> NaN"
  by (cases a; simp add: less_double_def less_eq_double_def)+

lemma NaN_arith [simp]:
  "NaN + a = NaN" "a + NaN = NaN" "NaN - a = NaN" "a - NaN = NaN"
  "NaN * a = NaN" "a * NaN = NaN" "NaN / a = NaN" "a / NaN = NaN"
  by (cases a; simp add: plus_double_def minus_double_def times_double_def divide_double_def)+

lemma double_le_not_less: "a \<le> b \<Longrightarrow> \<not> b < (a::double)"
  by (cases a; cases b; simp add: less_double_def less_eq_double_def)

lemma double_not_less_le: "\<not> b < a \<Longrightarrow> a \<noteq> NaN \<Longrightarrow> b \<noteq> NaN \<Longrightarrow> a \<le> (b::double)"
  by (cases a; cases b; simp add: less_double_def less_eq_double_def)

lemma double_less_le: "a < b \<Longrightarrow> a \<le> (b::double)"
  by (cases a; cases b; simp add: less_double_def less_eq_double_def)

lemma double_less_not_le: "a < b \<Longrightarrow> \<not> b \<le> (a::double)"
  by (cases a; cases b; simp add: less_double_def less_eq_double_def)

lemma double_le_refl: "a \<noteq> NaN \<Longrightarrow> a \<le> (a::double)"
  by (cases a; simp add: less_double_def less_eq_double_def)

text \<open>Rounding keeps the sign and never crosses a power of two.\<close>

lemma floor_log2_bounds:
  assumes "0 < r"
  shows "2 powi \<lfloor>log 2 r\<rfloor> \<le> r" "r < 2 powi (\<lfloor>log 2 r\<rfloor> + 1)"
proof -
  have "\<lfloor>log 2 r\<rfloor> = \<lfloor>log 2 r\<rfloor>" ..
  then have b: "2 powr real_of_int \<lfloor>log 2 r\<rfloor> \<le> r \<and> r < 2 powr (real_of_int \<lfloor>log 2 r\<rfloor> + 1)"
    using assms by (subst (asm) floor_log_eq_powr_iff) simp_all
  have "(2::real) powr (real_of_int \<lfloor>log 2 r\<rfloor>) = 2 powi \<lfloor>log 2 r\<rfloor>"
       "(2::real) powr (real_of_int \<lfloor>log 2 r\<rfloor> + 1) = 2 powi (\<lfloor>log 2 r\<rfloor> + 1)"
    using powr_real_of_int'[of "2::real" "\<lfloor>log 2 r\<rfloor>"]
          powr_real_of_int'[of "2::real" "\<lfloor>log 2 r\<rfloor> + 1"]
    by simp_all
  then show "2 powi \<lfloor>log 2 r\<rfloor> \<le> r" "r < 2 powi (\<lfloor>log 2 r\<rfloor> + 1)"
    using b by simp_all
qed

lemma powi_less_imp_less:
  assumes "(2::real) powi a < 2 powi b"
  shows "a < b"
proof (rule ccontr)
  assume "\<not> a < b"
  then have "(2::real) powi b \<le> 2 powi a" by (intro power_int_increasing) simp_all
  then show False using assms by simp
qed

lemma rnd_nonneg:
  assumes "0 \<le> r"
  shows "0 \<le> rnd r"
proof (cases "r = 0")
  case True
  then show ?thesis by simp
next
  case False
  have "real_of_int 0 \<le> r / ulp r" using assms ulp_pos[of r] by simp
  then have "0 \<le> round_half_even (r / ulp r)" by (rule round_half_even_ge)
  then show ?thesis using False ulp_pos[of r] by (simp add: rnd_def)
qed

lemma rnd_ge_pow:
  assumes "2 powi k \<le> r" "- 1022 \<le> k"
  shows "2 powi k \<le> rnd r"
proof -
  have p: "0 < r" using assms(1) by (smt (verit) zero_less_power_int)
  let ?f = "\<lfloor>log 2 r\<rfloor>"
  note b = floor_log2_bounds[OF p]
  have "(2::real) powi k < 2 powi (?f + 1)" using assms(1) b(2) by linarith
  then have "k < ?f + 1" by (rule powi_less_imp_less)
  then have kf: "k \<le> ?f" by simp
  then have e: "exponent r = ?f" using assms(2) p by (simp add: exponent_def)
  let ?u = "(2::real) powi (?f - 52)"
  have u: "0 < ?u" by simp
  have s: "(2::real) powi ?f = 2 ^ 52 * ?u"
    by (simp add: power_int_diff)
  have "real_of_int (2 ^ 52) \<le> r / ?u"
    using b(1) u unfolding s by (simp add: pos_le_divide_eq)
  then have "2 ^ 52 \<le> round_half_even (r / ?u)" by (rule round_half_even_ge)
  then have "real_of_int (2 ^ 52) \<le> real_of_int (round_half_even (r / ?u))"
    by (simp only: of_int_le_iff)
  then have "real_of_int (2 ^ 52) * ?u \<le> real_of_int (round_half_even (r / ?u)) * ?u"
    using u by (simp only: mult_le_cancel_right_pos)
  then have "2 powi ?f \<le> rnd r"
    using p unfolding s by (simp add: rnd_def ulp_def e)
  moreover have "(2::real) powi k \<le> 2 powi ?f"
    using kf by (intro power_int_increasing) simp_all
  ultimately show ?thesis by linarith
qed

lemma rnd_le_pow:
  assumes "0 \<le> r" "r \<le> 2 powi k" "- 1022 \<le> k"
  shows "rnd r \<le> 2 powi k"
proof (cases "r = 0")
  case True
  then show ?thesis by simp
next
  case False
  then have p: "0 < r" using assms(1) by simp
  let ?f = "\<lfloor>log 2 r\<rfloor>"
  note b = floor_log2_bounds[OF p]
  have "(2::real) powi ?f < 2 powi (k + 1)"
  proof -
    have "(2::real) powi k < 2 powi (k + 1)" by (intro power_int_strict_increasing) simp_all
    then show ?thesis using b(1) assms(2) by linarith
  qed
  then have "?f < k + 1" by (rule powi_less_imp_less)
  then have ek: "exponent r \<le> k" using assms(3) p by (simp add: exponent_def)
  let ?e = "exponent r"
  let ?u = "(2::real) powi (?e - 52)"
  let ?m = "(2::int) ^ nat (k - ?e + 52)"
  have u: "0 < ?u" by simp
  have "(2::real) powi k = 2 powi (k - ?e + 52) * ?u"
    by (simp flip: power_int_add)
  also have "(2::real) powi (k - ?e + 52) = real_of_int ?m"
    using ek by (simp add: power_int_def)
  finally have s: "(2::real) powi k = real_of_int ?m * ?u" .
  have "r / ?u \<le> real_of_int ?m"
    using assms(2) u unfolding s by (simp add: pos_divide_le_eq)
  then have "round_half_even (r / ?u) \<le> ?m" by (rule round_half_even_le)
  then have "real_of_int (round_half_even (r / ?u)) \<le> real_of_int ?m"
    by (simp only: of_int_le_iff)
  then have "real_of_int (round_half_even (r / ?u)) * ?u \<le> real_of_int ?m * ?u"
    using u by (simp only: mult_le_cancel_right_pos)
  then show ?thesis using p unfolding s by (simp add: rnd_def ulp_def)
qed

lemma fin_bounded:
  assumes "0 \<le> r" "r \<le> 2 powi k" "- 1022 \<le> k" "k \<le> 1023"
  shows "\<exists>w. fin r = Fin w \<and> 0 \<le> w \<and> w \<le> 2 powi k"
proof -
  have 1: "0 \<le> rnd r" using assms(1) by (rule rnd_nonneg)
  have 2: "rnd r \<le> 2 powi k" using assms(1-3) by (rule rnd_le_pow)
  have "(2::real) powi k \<le> 2 powi 1023" using assms(4) by (intro power_int_increasing) simp_all
  then have "rnd r \<le> DBL_MAX" using 2 pow_1023_le_DBL_MAX by linarith
  then have "fin r = Fin (rnd r)" using 1 DBL_MAX_pos by (simp add: fin_def)
  then show ?thesis using 1 2 by simp
qed

lemma fin_overflow:
  assumes "2 powi 1024 \<le> r"
  shows "fin r = PInf"
proof -
  have "2 powi 1024 \<le> rnd r" using assms by (rule rnd_ge_pow) simp
  moreover have "DBL_MAX < 2 powi 1024" by (simp add: DBL_MAX_def)
  ultimately show ?thesis by (simp add: fin_def)
qed

text \<open>
  The rounded square root is evaluated from squares, so that no irrational number has to
  be computed.
\<close>

lemma dsqrt_eval:
  assumes "(2 powi e)\<^sup>2 \<le> a" "a < (2 powi (e + 1))\<^sup>2" "- 1022 \<le> e"
    and "((of_int n - 1 / 2) * 2 powi (e - 52))\<^sup>2 < a"
    and "a < ((of_int n + 1 / 2) * 2 powi (e - 52))\<^sup>2" "1 \<le> n"
    and "v = of_int n * 2 powi (e - 52)"
  shows "dsqrt (Fin a) = Fin v"
proof -
  let ?u = "(2::real) powi (e - 52)"
  have u: "0 < ?u" by simp
  have a: "0 \<le> a" using assms(1) by (smt (verit) zero_le_power2)
  have 1: "2 powi e \<le> sqrt a" using assms(1) by (rule real_le_rsqrt)
  have 2: "sqrt a < 2 powi (e + 1)" using assms(2) by (intro real_less_lsqrt) simp_all
  have 3: "(of_int n - 1 / 2) * ?u < sqrt a" using assms(4) by (rule real_less_rsqrt)
  have "0 \<le> (real_of_int n + 1 / 2) * ?u" using assms(6) by simp
  then have 4: "sqrt a < (of_int n + 1 / 2) * ?u" using assms(5) by (intro real_less_lsqrt) simp_all
  have "of_int n - 1 / 2 < sqrt a / ?u" "sqrt a / ?u < of_int n + 1 / 2"
    using 3 4 u by (simp_all add: pos_less_divide_eq pos_divide_less_eq)
  then have 5: "\<bar>sqrt a / ?u - of_int n\<bar> < 1 / 2" by linarith
  have "0 \<le> sqrt a" using a by simp
  then have "rnd (sqrt a) = of_int n * ?u"
    using rnd_eval[of e "sqrt a" n] 1 2 assms(3) 5 by simp
  then show ?thesis using a assms(7) by simp
qed

text \<open>The doubles that the decimal literals of the source denote.\<close>

lemma dbl_0 [simp]: "dbl 0 = Fin 0"
  by (simp add: dbl_def)

lemma dbl_1 [simp]: "dbl 1 = Fin 1"
  unfolding dbl_def by (rule fin_eval[where e = "0" and n = "4503599627370496"]) simp_all

lemma dbl_2: "dbl 2 = Fin 2"
  unfolding dbl_def by (rule fin_eval[where e = "1" and n = "4503599627370496"]) simp_all

lemma dbl_5: "dbl 5 = Fin 5"
  unfolding dbl_def by (rule fin_eval[where e = "2" and n = "5629499534213120"]) simp_all

lemma dbl_10: "dbl 10 = Fin 10"
  unfolding dbl_def by (rule fin_eval[where e = "3" and n = "5629499534213120"]) simp_all

lemma dbl_30: "dbl 30 = Fin 30"
  unfolding dbl_def by (rule fin_eval[where e = "4" and n = "8444249301319680"]) simp_all

lemma dbl_500: "dbl 500 = Fin 500"
  unfolding dbl_def by (rule fin_eval[where e = "8" and n = "8796093022208000"]) simp_all

lemma dbl_m500: "dbl (- 500) = Fin (- 500)"
  unfolding dbl_def by (rule fin_eval[where e = "8" and n = "- 8796093022208000"]) simp_all

lemma dbl_1000: "dbl 1000 = Fin 1000"
  unfolding dbl_def by (rule fin_eval[where e = "9" and n = "8796093022208000"]) simp_all

lemma dbl_10000: "dbl 10000 = Fin 10000"
  unfolding dbl_def by (rule fin_eval[where e = "13" and n = "5497558138880000"]) simp_all

lemma dbl_0_1: "dbl (1 / 10) = Fin (3602879701896397 / 36028797018963968)"
  unfolding dbl_def by (rule fin_eval[where e = "- 4" and n = "7205759403792794"]) simp_all

lemma dbl_0_5: "dbl (1 / 2) = Fin (1 / 2)"
  unfolding dbl_def by (rule fin_eval[where e = "- 1" and n = "4503599627370496"]) simp_all

lemma dbl_0_005: "dbl (1 / 200) = Fin (5764607523034235 / 1152921504606846976)"
  unfolding dbl_def by (rule fin_eval[where e = "- 8" and n = "5764607523034235"]) simp_all

lemma dbl_0_01: "dbl (1 / 100) = Fin (5764607523034235 / 576460752303423488)"
  unfolding dbl_def by (rule fin_eval[where e = "- 7" and n = "5764607523034235"]) simp_all

lemma dbl_0_0001: "dbl (1 / 10000) = Fin (7378697629483821 / 73786976294838206464)"
  unfolding dbl_def by (rule fin_eval[where e = "- 14" and n = "7378697629483821"]) simp_all

lemma dbl_0_02: "dbl (1 / 50) = Fin (5764607523034235 / 288230376151711744)"
  unfolding dbl_def by (rule fin_eval[where e = "- 6" and n = "5764607523034235"]) simp_all

lemma dbl_0_2: "dbl (1 / 5) = Fin (3602879701896397 / 18014398509481984)"
  unfolding dbl_def by (rule fin_eval[where e = "- 3" and n = "7205759403792794"]) simp_all

lemma dbl_0_1000000005: "dbl (200000001 / 2000000000) = Fin (7205759439821591 / 72057594037927936)"
  unfolding dbl_def by (rule fin_eval[where e = "- 4" and n = "7205759439821591"]) simp_all

lemma fin_1: "fin 1 = Fin 1"
  using dbl_1 by (simp add: dbl_def)

lemma rnd_1: "rnd 1 = 1"
  using rnd_eval[where r = 1 and e = 0 and n = 4503599627370496] by simp

text \<open>Some values that are doubles already.\<close>

lemma fin_2: "fin 2 = Fin 2"
  by (rule fin_eval[where e = "1" and n = "4503599627370496"]) simp_all

lemma fin_4: "fin 4 = Fin 4"
  by (rule fin_eval[where e = "2" and n = "4503599627370496"]) simp_all

lemma fin_8: "fin 8 = Fin 8"
  by (rule fin_eval[where e = "3" and n = "4503599627370496"]) simp_all

lemma fin_quarter: "fin (1 / 4) = Fin (1 / 4)"
  by (rule fin_eval[where e = "- 2" and n = "4503599627370496"]) simp_all

lemma rnd_half: "rnd (1 / 2) = 1 / 2"
  using rnd_eval[where r = "1 / 2" and e = "- 1" and n = 4503599627370496] by simp

lemmas literals = dbl_0 dbl_1 dbl_2 dbl_5 dbl_10 dbl_30 dbl_500 dbl_m500 dbl_1000 dbl_10000 dbl_0_1 dbl_0_5 dbl_0_005 dbl_0_01 dbl_0_0001 dbl_0_02 dbl_0_2 dbl_0_1000000005

text \<open>The position damping that the constructor leaves: \<open>0.02 / 10000\<close>, rounded twice.\<close>

lemma posDamping_0_02: "Fin (5764607523034235 / 288230376151711744) / Fin 10000 = Fin (4722366482869645 / 2361183241434822606848)"
  unfolding divide_double_def ddiv.simps
  by (simp, rule fin_eval[where e = "- 19" and n = "4722366482869645"]) simp_all

lemma fin_posDamping_0_02: "fin (4722366482869645 / 2361183241434822606848) = Fin (4722366482869645 / 2361183241434822606848)"
  by (rule fin_eval[where e = "- 19" and n = "4722366482869645"]) simp_all
section \<open>Loops and the random generator\<close>

lemma fold_keeps:
  assumes "\<And>i s. P (f i s) = P s"
  shows "P (fold f xs s) = P s"
  using assms by (induction xs arbitrary: s) simp_all

lemma fold_keeps_on:
  assumes "\<And>i s. i \<in> set xs \<Longrightarrow> P (f i s) = P s"
  shows "P (fold f xs s) = P s"
  using assms by (induction xs arbitrary: s) simp_all

lemma others_rand [simp]: "others (snd (rand s)) = others s"
  by (simp add: rand_def others_def)

lemma bodies_rand [simp]: "bodies (snd (rand s)) = bodies s"
  by (simp add: rand_def)

lemma others_randomImpulse [simp]: "others (snd (randomImpulse a b s)) = others s"
  by (simp add: randomImpulse_def randomAngle_def randomRange_def rand_def others_def Let_def
           split: prod.splits)

lemma bodies_randomImpulse [simp]: "bodies (snd (randomImpulse a b s)) = bodies s"
  by (simp add: randomImpulse_def randomAngle_def randomRange_def rand_def Let_def
           split: prod.splits)

lemma others_fields:
  assumes "others t = others s"
  shows "initBodies t = initBodies s" "blackHole t = blackHole s" "G t = G s" "dt t = dt s"
    "pos_damping t = pos_damping s" "vel_damping t = vel_damping s"
    "softening t = softening s" "vmin t = vmin s" "vmax t = vmax s"
    "body_count t = body_count s" "RAND_MAX t = RAND_MAX s"
proof -
  have "initBodies (others t) = initBodies (others s)" using assms by simp
  then show "initBodies t = initBodies s" by (simp add: others_def)
  have "blackHole (others t) = blackHole (others s)" using assms by simp
  then show "blackHole t = blackHole s" by (simp add: others_def)
  have "G (others t) = G (others s)" using assms by simp
  then show "G t = G s" by (simp add: others_def)
  have "dt (others t) = dt (others s)" using assms by simp
  then show "dt t = dt s" by (simp add: others_def)
  have "pos_damping (others t) = pos_damping (others s)" using assms by simp
  then show "pos_damping t = pos_damping s" by (simp add: others_def)
  have "vel_damping (others t) = vel_damping (others s)" using assms by simp
  then show "vel_damping t = vel_damping s" by (simp add: others_def)
  have "softening (others t) = softening (others s)" using assms by simp
  then show "softening t = softening s" by (simp add: others_def)
  have "vmin (others t) = vmin (others s)" using assms by simp
  then show "vmin t = vmin s" by (simp add: others_def)
  have "vmax (others t) = vmax (others s)" using assms by simp
  then show "vmax t = vmax s" by (simp add: others_def)
  have "body_count (others t) = body_count (others s)" using assms by simp
  then show "body_count t = body_count s" by (simp add: others_def)
  have "RAND_MAX (others t) = RAND_MAX (others s)" using assms by simp
  then show "RAND_MAX t = RAND_MAX s" by (simp add: others_def)
qed

section \<open>What a simulation step leaves alone\<close>

lemma others_positionStep [simp]: "others (positionStep h i s) = others s"
  by (simp add: positionStep_def others_def Let_def)

lemma others_repulsionStep [simp]: "others (repulsionStep k z m j s) = others s"
  by (simp add: repulsionStep_def others_def rand_def Let_def split: prod.splits)

lemma others_applyCloseBodyRepulsion [simp]:
  "others (applyCloseBodyRepulsion k a b c d s) = others s"
proof -
  have *: "\<And>xs t. others (fold (repulsionStep (nat k) c d) xs t) = others t"
    by (rule fold_keeps) simp
  show ?thesis
    by (simp add: applyCloseBodyRepulsion_def Let_def * split: prod.splits)
       (simp add: others_def rand_def)
qed

lemma others_accelerateStep [simp]: "others (accelerateStep i s) = others s"
  by (simp add: accelerateStep_def Let_def) (simp add: others_def)

lemma others_nudgeBlock [simp]: "others (snd (nudgeBlock b s)) = others s"
  by (simp add: nudgeBlock_def Let_def split: prod.splits)
     (auto simp: others_def randomImpulse_def randomAngle_def randomRange_def rand_def Let_def
           split: prod.splits)

lemma bodies_nudgeBlock [simp]: "bodies (snd (nudgeBlock b s)) = bodies s"
  by (simp add: nudgeBlock_def Let_def split: prod.splits)
     (auto simp: randomImpulse_def randomAngle_def randomRange_def rand_def Let_def
           split: prod.splits)

lemma others_velocityStep [simp]: "others (velocityStep h oa ob i s) = others s"
proof -
  obtain b2 s2 where n:
    "nudgeBlock ((bodies s ! i)\<lparr>vx := vx (bodies s ! i) + dbl 0.5 * (oa ! i + ax (bodies s ! i)) * h,
                                vy := vy (bodies s ! i) + dbl 0.5 * (ob ! i + ay (bodies s ! i)) * h\<rparr>) s
       = (b2, s2)"
    by fastforce
  from others_nudgeBlock[of _ s] n have "others s2 = others s" by (metis snd_conv)
  then show ?thesis using n
    by (simp add: velocityStep_def Let_def) (simp add: others_def)
qed

lemma others_applyMinSpeedBody [simp]: "others (applyMinSpeedBody i s) = others s"
proof -
  obtain imp s1 where r: "randomImpulse (dbl 0.02) (dbl 0.07) s = (imp, s1)" by fastforce
  from others_randomImpulse[of _ _ s] r have "others s1 = others s" by (metis snd_conv)
  then show ?thesis using r
    by (simp add: applyMinSpeedBody_def Let_def) (simp add: others_def)
qed

lemma others_simulate: "others (simulate s) = others s"
proof -
  have 1: "\<And>h xs t. others (fold (positionStep h) xs t) = others t"
    by (rule fold_keeps) simp
  have 2: "\<And>xs t. others (fold accelerateStep xs t) = others t"
    by (rule fold_keeps) simp
  have 3: "\<And>h oa ob xs t. others (fold (velocityStep h oa ob) xs t) = others t"
    by (rule fold_keeps) simp
  have 4: "\<And>xs t. others (fold applyMinSpeedBody xs t) = others t"
    by (rule fold_keeps) simp
  show ?thesis
    by (simp add: simulate_def applyMinSpeed_def Let_def 1 2 3 4)
qed

lemma inert_rand [simp]: "inert n (snd (rand s)) = inert n s"
  by (simp add: inert_def)

lemma inert_randomImpulse [simp]: "inert n (snd (randomImpulse a b s)) = inert n s"
  by (simp add: inert_def)

lemma inert_positionStep: "i < n \<Longrightarrow> inert n (positionStep h i s) = inert n s"
  by (simp add: positionStep_def inert_def Let_def)

lemma inert_repulsionStep: "k < n \<Longrightarrow> inert n (repulsionStep k z m j s) = inert n s"
  by (simp add: repulsionStep_def inert_def rand_def Let_def split: prod.splits)

lemma inert_applyCloseBodyRepulsion:
  assumes "nat k < n"
  shows "inert n (applyCloseBodyRepulsion k a b c d s) = inert n s"
proof -
  have *: "\<And>xs t. inert n (fold (repulsionStep (nat k) c d) xs t) = inert n t"
    by (rule fold_keeps) (simp add: inert_repulsionStep assms)
  show ?thesis using assms
    by (simp add: applyCloseBodyRepulsion_def Let_def * split: prod.splits)
       (simp add: inert_def rand_def)
qed

lemma inert_accelerateStep: "i < n \<Longrightarrow> inert n (accelerateStep i s) = inert n s"
  by (simp add: accelerateStep_def Let_def inert_applyCloseBodyRepulsion) (simp add: inert_def)

lemma inert_velocityStep:
  assumes "i < n"
  shows "inert n (velocityStep h oa ob i s) = inert n s"
proof -
  obtain b2 s2 where n:
    "nudgeBlock ((bodies s ! i)\<lparr>vx := vx (bodies s ! i) + dbl 0.5 * (oa ! i + ax (bodies s ! i)) * h,
                                vy := vy (bodies s ! i) + dbl 0.5 * (ob ! i + ay (bodies s ! i)) * h\<rparr>) s
       = (b2, s2)"
    by fastforce
  from bodies_nudgeBlock[of _ s] n have "bodies s2 = bodies s" by (metis snd_conv)
  then show ?thesis using n assms
    by (simp add: velocityStep_def Let_def) (simp add: inert_def)
qed

lemma inert_applyMinSpeedBody:
  assumes "i < n"
  shows "inert n (applyMinSpeedBody i s) = inert n s"
proof -
  obtain imp s1 where r: "randomImpulse (dbl 0.02) (dbl 0.07) s = (imp, s1)" by fastforce
  from bodies_randomImpulse[of _ _ s] r have "bodies s1 = bodies s" by (metis snd_conv)
  then show ?thesis using r assms
    by (simp add: applyMinSpeedBody_def Let_def) (simp add: inert_def)
qed

lemma inert_simulate: "inert (nat (body_count s)) (simulate s) = inert (nat (body_count s)) s"
proof -
  let ?n = "nat (body_count s)"
  have 1: "\<And>h t. inert ?n (fold (positionStep h) [0..<?n] t) = inert ?n t"
    by (rule fold_keeps_on) (simp add: inert_positionStep)
  have 2: "\<And>t. inert ?n (fold accelerateStep [0..<?n] t) = inert ?n t"
    by (rule fold_keeps_on) (simp add: inert_accelerateStep)
  have 3: "\<And>h oa ob t. inert ?n (fold (velocityStep h oa ob) [0..<?n] t) = inert ?n t"
    by (rule fold_keeps_on) (simp add: inert_velocityStep)
  have 4: "\<And>t. inert ?n (fold applyMinSpeedBody [0..<?n] t) = inert ?n t"
    by (rule fold_keeps_on) (simp add: inert_applyMinSpeedBody)
  have o1: "\<And>h xs t. others (fold (positionStep h) xs t) = others t"
    by (rule fold_keeps) simp
  have o2: "\<And>xs t. others (fold accelerateStep xs t) = others t"
    by (rule fold_keeps) simp
  have o3: "\<And>h oa ob xs t. others (fold (velocityStep h oa ob) xs t) = others t"
    by (rule fold_keeps) simp
  have bc: "\<And>h oa ob. body_count (fold (velocityStep h oa ob) [0..<?n]
              (fold accelerateStep [0..<?n] (fold (positionStep h) [0..<?n] s))) = body_count s"
    by (rule others_fields) (simp add: o1 o2 o3)
  show ?thesis
    by (simp add: simulate_def applyMinSpeed_def Let_def bc 1 2 3 4)
qed

text \<open>
  Claim C5. One call of \<open>simulate\<close> leaves every record of \<open>initBodies\<close>, the black hole
  and the scalar parameters \<open>G\<close>, \<open>dt\<close>, \<open>pos_damping\<close>, \<open>vel_damping\<close>, \<open>softening\<close>,
  \<open>vmin\<close>, \<open>vmax\<close> and \<open>body_count\<close> as they were, keeps the size of the live array, and
  leaves every live record at an index from \<open>body_count\<close> on unchanged: it writes only the
  bodies below \<open>body_count\<close>, the nudge bookkeeping and the random generator.
\<close>

theorem simulate_frame:
  "initBodies (simulate s) = initBodies s \<and> blackHole (simulate s) = blackHole s \<and>
   G (simulate s) = G s \<and> dt (simulate s) = dt s \<and>
   pos_damping (simulate s) = pos_damping s \<and> vel_damping (simulate s) = vel_damping s \<and>
   softening (simulate s) = softening s \<and> vmin (simulate s) = vmin s \<and>
   vmax (simulate s) = vmax s \<and> body_count (simulate s) = body_count s \<and>
   length (bodies (simulate s)) = length (bodies s) \<and>
   (\<forall>k. body_count s \<le> int k \<and> k < length (bodies s)
        \<longrightarrow> bodies (simulate s) ! k = bodies s ! k)"
proof -
  note o = others_fields[OF others_simulate[of s]]
  have i: "inert (nat (body_count s)) (simulate s) = inert (nat (body_count s)) s"
    by (rule inert_simulate)
  then have len: "length (bodies (simulate s)) = length (bodies s)"
    and dr: "drop (nat (body_count s)) (bodies (simulate s)) = drop (nat (body_count s)) (bodies s)"
    by (simp_all add: inert_def)
  have "bodies (simulate s) ! k = bodies s ! k"
    if "body_count s \<le> int k" "k < length (bodies s)" for k
  proof -
    let ?n = "nat (body_count s)"
    from that have le: "?n \<le> k" by linarith
    have "bodies (simulate s) ! k = drop ?n (bodies (simulate s)) ! (k - ?n)"
      using le that len by simp
    also have "\<dots> = drop ?n (bodies s) ! (k - ?n)" by (simp only: dr)
    also have "\<dots> = bodies s ! k" using le that by simp
    finally show ?thesis .
  qed
  with o len show ?thesis by simp
qed

theorem simulate_frame_witness:
  "body_count engine0 \<le> int 5 \<and> 5 < length (bodies engine0) \<and>
   bodies (simulate engine0) ! 5 = bodies engine0 ! 5 \<and>
   initBodies (simulate engine0) = initBodies engine0"
  using simulate_frame[of engine0] by (simp add: engine0_def)

section \<open>Configuration calls and presets\<close>

lemma config_initBody [simp]: "config (initBody i s) = config s"
  by (simp add: initBody_def config_def Let_def)

lemma config_setBody [simp]: "config (setBody i a b c d m s) = config s"
  by (simp add: setBody_def Let_def) (simp add: config_def)

lemma config_resetBody [simp]: "config (resetBody i s) = config s"
  by (simp add: resetBody_def Let_def) (simp add: config_def)

lemma config_reset [simp]: "config (reset s) = config s"
  unfolding reset_def by (rule fold_keeps) simp

lemma config_fields:
  assumes "config t = config s"
  shows "blackHole t = blackHole s" "G t = G s" "dt t = dt s"
    "pos_damping t = pos_damping s" "vel_damping t = vel_damping s"
    "softening t = softening s" "vmin t = vmin s" "vmax t = vmax s"
    "body_count t = body_count s" "nudge_mode t = nudge_mode s" "nudge_step t = nudge_step s"
    "RAND_MAX t = RAND_MAX s" "rand_seq t = rand_seq s"
proof -
  have "blackHole (config t) = blackHole (config s)" using assms by simp
  then show "blackHole t = blackHole s" by (simp add: config_def)
  have "G (config t) = G (config s)" using assms by simp
  then show "G t = G s" by (simp add: config_def)
  have "dt (config t) = dt (config s)" using assms by simp
  then show "dt t = dt s" by (simp add: config_def)
  have "pos_damping (config t) = pos_damping (config s)" using assms by simp
  then show "pos_damping t = pos_damping s" by (simp add: config_def)
  have "vel_damping (config t) = vel_damping (config s)" using assms by simp
  then show "vel_damping t = vel_damping s" by (simp add: config_def)
  have "softening (config t) = softening (config s)" using assms by simp
  then show "softening t = softening s" by (simp add: config_def)
  have "vmin (config t) = vmin (config s)" using assms by simp
  then show "vmin t = vmin s" by (simp add: config_def)
  have "vmax (config t) = vmax (config s)" using assms by simp
  then show "vmax t = vmax s" by (simp add: config_def)
  have "body_count (config t) = body_count (config s)" using assms by simp
  then show "body_count t = body_count s" by (simp add: config_def)
  have "nudge_mode (config t) = nudge_mode (config s)" using assms by simp
  then show "nudge_mode t = nudge_mode s" by (simp add: config_def)
  have "nudge_step (config t) = nudge_step (config s)" using assms by simp
  then show "nudge_step t = nudge_step s" by (simp add: config_def)
  have "RAND_MAX (config t) = RAND_MAX (config s)" using assms by simp
  then show "RAND_MAX t = RAND_MAX s" by (simp add: config_def)
  have "rand_seq (config t) = rand_seq (config s)" using assms by simp
  then show "rand_seq t = rand_seq s" by (simp add: config_def)
qed

lemmas setBody_fields [simp] = config_fields[OF config_setBody]
lemmas reset_fields [simp] = config_fields[OF config_reset]

lemma applyPreset_keeps:
  assumes "\<And>g s. P (setG g s) = P s" "\<And>g s. P (setDt g s) = P s"
    "\<And>g s. P (setSoftening g s) = P s" "\<And>g s. P (setPosDamping g s) = P s"
    "\<And>g s. P (setVelDamping g s) = P s" "\<And>n s. P (setBodyCount n s) = P s"
    "\<And>i a b c d m s. P (setBody i a b c d m s) = P s"
    "\<And>s. P (snd (rand s)) = P s"
  shows "P (applyPreset p s) = P s"
proof -
  note a = assms(1-7)
  have r: "\<And>t r t1. rand t = (r, t1) \<Longrightarrow> P t1 = P t"
    using assms(8) by (metis snd_conv)
  have fk: "\<And>f xs t. (\<And>i u. P (f i u) = P u) \<Longrightarrow> P (fold f xs t) = P t"
    by (rule fold_keeps)
  have c0: "P (preset_case0 s) = P s" by (simp add: preset_case0_def calls_def a)
  have c1: "P (preset_case1 s) = P s" by (simp add: preset_case1_def calls_def a)
  have c2: "P (preset_case2 s) = P s" by (simp add: preset_case2_def calls_def a fk Let_def r split: prod.splits)
  have c3: "P (preset_case3 s) = P s" by (simp add: preset_case3_def calls_def a fk Let_def r split: prod.splits)
  have c4: "P (preset_case4 s) = P s" by (simp add: preset_case4_def calls_def a fk Let_def r split: prod.splits)
  have c5: "P (preset_case5 s) = P s" by (simp add: preset_case5_def calls_def a fk Let_def r split: prod.splits)
  have c6: "P (preset_case6 s) = P s" by (simp add: preset_case6_def calls_def a)
  have c7: "P (preset_case7 s) = P s" by (simp add: preset_case7_def calls_def a fk Let_def r split: prod.splits)
  have c8: "P (preset_case8 s) = P s" by (simp add: preset_case8_def calls_def a fk Let_def r split: prod.splits)
  have c9: "P (preset_case9 s) = P s" by (simp add: preset_case9_def calls_def a fk Let_def r split: prod.splits)
  have c10: "P (preset_case10 s) = P s" by (simp add: preset_case10_def calls_def a)
  have c11: "P (preset_case11 s) = P s" by (simp add: preset_case11_def calls_def a)
  have c12: "P (preset_case12 s) = P s" by (simp add: preset_case12_def calls_def a)
  have c13: "P (preset_case13 s) = P s" by (simp add: preset_case13_def calls_def a)
  show ?thesis
    by (simp add: applyPreset_def c0 c1 c2 c3 c4 c5 c6 c7 c8 c9 c10 c11 c12 c13)
qed

section \<open>The nudge bookkeeping\<close>

lemma fold_steps:
  assumes "\<And>i s. P (f i s) = g (P s)"
  shows "P (fold f xs s) = (g ^^ length xs) (P s)"
  using assms by (induction xs arbitrary: s) (simp_all add: funpow_swap1)

lemma nudgeState_rand [simp]: "nudgeState (snd (rand s)) = nudgeState s"
  by (simp add: rand_def nudgeState_def)

lemma nudgeState_randomImpulse [simp]: "nudgeState (snd (randomImpulse a b s)) = nudgeState s"
  by (simp add: randomImpulse_def randomAngle_def randomRange_def rand_def nudgeState_def Let_def
           split: prod.splits)

lemma nudgeState_positionStep [simp]: "nudgeState (positionStep h i s) = nudgeState s"
  by (simp add: positionStep_def nudgeState_def Let_def)

lemma nudgeState_repulsionStep [simp]: "nudgeState (repulsionStep k z m j s) = nudgeState s"
  by (simp add: repulsionStep_def nudgeState_def rand_def Let_def split: prod.splits)

lemma nudgeState_applyCloseBodyRepulsion [simp]:
  "nudgeState (applyCloseBodyRepulsion k a b c d s) = nudgeState s"
proof -
  have *: "\<And>xs t. nudgeState (fold (repulsionStep (nat k) c d) xs t) = nudgeState t"
    by (rule fold_keeps) simp
  show ?thesis
    by (simp add: applyCloseBodyRepulsion_def Let_def * split: prod.splits)
       (simp add: nudgeState_def rand_def)
qed

lemma nudgeState_accelerateStep [simp]: "nudgeState (accelerateStep i s) = nudgeState s"
  by (simp add: accelerateStep_def Let_def) (simp add: nudgeState_def)

lemma nudgeState_applyMinSpeedBody [simp]: "nudgeState (applyMinSpeedBody i s) = nudgeState s"
proof -
  obtain imp s1 where r: "randomImpulse (dbl 0.02) (dbl 0.07) s = (imp, s1)" by fastforce
  from nudgeState_randomImpulse[of _ _ s] r have "nudgeState s1 = nudgeState s" by (metis snd_conv)
  then show ?thesis using r
    by (simp add: applyMinSpeedBody_def Let_def) (simp add: nudgeState_def)
qed

lemma nudge_randomImpulse:
  "randomImpulse a b s = (v, t) \<Longrightarrow> nudge_mode t = nudge_mode s \<and> nudge_step t = nudge_step s"
  using nudgeState_randomImpulse[of a b s] by (simp add: nudgeState_def)

lemma nudgeState_nudgeBlock [simp]: "nudgeState (snd (nudgeBlock b s)) = nudgeTick (nudgeState s)"
  by (auto simp: nudgeBlock_def Let_def nudgeTick_def nudgeState_def split: prod.splits
           dest!: nudge_randomImpulse)

lemma nudgeState_velocityStep [simp]:
  "nudgeState (velocityStep h oa ob i s) = nudgeTick (nudgeState s)"
proof -
  obtain b2 s2 where n:
    "nudgeBlock ((bodies s ! i)\<lparr>vx := vx (bodies s ! i) + dbl 0.5 * (oa ! i + ax (bodies s ! i)) * h,
                                vy := vy (bodies s ! i) + dbl 0.5 * (ob ! i + ay (bodies s ! i)) * h\<rparr>) s
       = (b2, s2)"
    by fastforce
  from nudgeState_nudgeBlock[of _ s] n have "nudgeState s2 = nudgeTick (nudgeState s)"
    by (metis snd_conv)
  then show ?thesis using n
    by (simp add: velocityStep_def Let_def) (simp add: nudgeState_def)
qed

lemma nudgeState_simulate:
  "nudgeState (simulate s) = (nudgeTick ^^ nat (body_count s)) (nudgeState s)"
proof -
  have 1: "\<And>h xs t. nudgeState (fold (positionStep h) xs t) = nudgeState t"
    by (rule fold_keeps) simp
  have 2: "\<And>xs t. nudgeState (fold accelerateStep xs t) = nudgeState t"
    by (rule fold_keeps) simp
  have 3: "\<And>h oa ob xs t. nudgeState (fold (velocityStep h oa ob) xs t)
             = (nudgeTick ^^ length xs) (nudgeState t)"
    by (rule fold_steps) simp
  have 4: "\<And>xs t. nudgeState (fold applyMinSpeedBody xs t) = nudgeState t"
    by (rule fold_keeps) simp
  show ?thesis
    by (simp add: simulate_def applyMinSpeed_def Let_def 1 2 3 4)
qed

lemma nudgeState_resetBodies [simp]: "nudgeState (resetBodies s) = nudgeState s"
  unfolding resetBodies_def by (rule fold_keeps) (simp add: nudgeState_def)

lemma body_count_resetBodies [simp]: "body_count (resetBodies s) = body_count s"
  unfolding resetBodies_def by (rule fold_keeps) simp

lemma nudgeState_loadPreset [simp]: "nudgeState (loadPreset i s) = nudgeState s"
proof -
  have "nudgeState (applyPreset p t) = nudgeState t" for p t
    by (rule applyPreset_keeps)
       (simp_all add: nudgeState_def setG_def setDt_def setSoftening_def setPosDamping_def
          setVelDamping_def setBodyCount_def rand_def)
  then show ?thesis by (simp add: loadPreset_def Let_def)
qed

lemma body_count_Gravity_new: "body_count (Gravity_new s) = 10"
  by (simp add: Gravity_new_def loadPreset_def Let_def clampPreset_def applyPreset_def
        preset_case0_def calls_def setBodyCount_def BodyCount_def)

lemma nudgeState_Gravity_new: "nudgeState (Gravity_new s) = (False, 0)"
  by (simp add: Gravity_new_def) (simp add: nudgeState_def initParams_def)

lemma body_count_simulate [simp]: "body_count (simulate s) = body_count s"
  by (rule others_fields[OF others_simulate])

lemma tick10: "(nudgeTick ^^ 10) (True, 0) = (True, 10)" "(nudgeTick ^^ 10) (True, 10) = (True, 20)"
  "(nudgeTick ^^ 10) (True, 20) = (False, 1)" "(nudgeTick ^^ 10) (False, 1) = (False, 1)"
  by (simp_all add: eval_nat_numeral nudgeTick_def)

text \<open>
  Claim C4 says that the nudge lasts for the next 20 calls of \<open>simulate\<close>. The counter
  \<open>nudge_step\<close> is advanced once for every body inside the velocity loop, not once for
  every call. In a freshly constructed engine (preset 1, ten active bodies) the first two
  calls after \<open>nudge\<close> take the counter to 20, the third call disarms the mode at its first
  body, and from then on the nudge block leaves a body as it is: the fourth call overrides
  no velocity.
\<close>

theorem nudge_counts_bodies:
  "nudge_mode (simulate (simulate (nudge (Gravity_new s)))) = True \<and>
   nudge_step (simulate (simulate (nudge (Gravity_new s)))) = 20 \<and>
   nudge_mode (simulate (simulate (simulate (nudge (Gravity_new s))))) = False \<and>
   nudge_mode (simulate (simulate (simulate (simulate (nudge (Gravity_new s)))))) = False \<and>
   nudgeBlock b (simulate (simulate (simulate (nudge (Gravity_new s)))))
     = (b, simulate (simulate (simulate (nudge (Gravity_new s)))))"
proof -
  let ?s0 = "nudge (Gravity_new s)"
  have bc: "body_count ?s0 = 10" by (simp add: nudge_def body_count_Gravity_new)
  have "nudgeState ?s0 = (True, 0)"
    using nudgeState_Gravity_new[of s] by (simp add: nudge_def nudgeState_def)
  then have 1: "nudgeState (simulate ?s0) = (True, 10)"
    by (simp add: nudgeState_simulate bc tick10)
  then have 2: "nudgeState (simulate (simulate ?s0)) = (True, 20)"
    by (simp add: nudgeState_simulate bc tick10)
  then have 3: "nudgeState (simulate (simulate (simulate ?s0))) = (False, 1)"
    by (simp add: nudgeState_simulate bc tick10)
  then have 4: "nudgeState (simulate (simulate (simulate (simulate ?s0)))) = (False, 1)"
    by (simp add: nudgeState_simulate bc tick10)
  from 3 have "nudgeBlock b (simulate (simulate (simulate ?s0))) = (b, simulate (simulate (simulate ?s0)))"
    by (simp add: nudgeBlock_def nudgeState_def)
  with 2 3 4 show ?thesis by (simp add: nudgeState_def)
qed

section \<open>The speed limits\<close>

lemma limits_resetBodies [simp]:
  "vmin (resetBodies s) = vmin s" "vmax (resetBodies s) = vmax s"
  unfolding resetBodies_def by (rule fold_keeps, simp)+

lemma limits_loadPreset [simp]:
  "vmin (loadPreset i s) = vmin s" "vmax (loadPreset i s) = vmax s"
proof -
  have "vmin (applyPreset p t) = vmin t" for p t
    by (rule applyPreset_keeps)
       (simp_all add: setG_def setDt_def setSoftening_def setPosDamping_def
          setVelDamping_def setBodyCount_def rand_def)
  then show "vmin (loadPreset i s) = vmin s" by (simp add: loadPreset_def Let_def)
  have "vmax (applyPreset p t) = vmax t" for p t
    by (rule applyPreset_keeps)
       (simp_all add: setG_def setDt_def setSoftening_def setPosDamping_def
          setVelDamping_def setBodyCount_def rand_def)
  then show "vmax (loadPreset i s) = vmax s" by (simp add: loadPreset_def Let_def)
qed

lemma limits_simulate [simp]:
  "vmin (simulate s) = vmin s" "vmax (simulate s) = vmax s"
  by (rule others_fields[OF others_simulate])+

lemma limits_Gravity_new: "vmin (Gravity_new s) = dbl 1" "vmax (Gravity_new s) = dbl 5"
  by (simp_all add: Gravity_new_def initParams_def)

text \<open>
  An argument that is a number keeps the two limits in order. \<open>setVmin\<close> stores an
  argument in \<open>[0.1, 1000]\<close> and raises \<open>vmax\<close> to it if \<open>vmax\<close> is smaller; \<open>setVmax\<close>
  stores an argument in \<open>[1, 10000]\<close> and lowers \<open>vmin\<close> to it if \<open>vmin\<close> is larger; and
  every call whose argument is not NaN preserves \<open>vmin \<le> vmax\<close>.
\<close>

lemma setVmin_adjusts:
  assumes "dbl 0.1 \<le> v" "v \<le> dbl 1000"
  shows "vmin (setVmin v s) = v"
    "vmax s < v \<Longrightarrow> vmax (setVmin v s) = v"
    "\<not> vmax s < v \<Longrightarrow> vmax (setVmin v s) = vmax s"
  using assms by (simp_all add: setVmin_def Let_def double_le_not_less)

lemma setVmax_adjusts:
  assumes "dbl 1 \<le> v" "v \<le> dbl 10000"
  shows "vmax (setVmax v s) = v"
    "v < vmin s \<Longrightarrow> vmin (setVmax v s) = v"
    "\<not> v < vmin s \<Longrightarrow> vmin (setVmax v s) = vmin s"
  using assms by (simp_all add: setVmax_def Let_def double_le_not_less)

lemma limits_setVmin:
  assumes "vmin s \<le> vmax s" "v \<noteq> NaN"
  shows "vmin (setVmin v s) \<le> vmax (setVmin v s)"
proof -
  have "vmax s \<noteq> NaN" using assms(1) by auto
  then show ?thesis using assms
    by (auto simp add: setVmin_def Let_def double_le_refl double_not_less_le)
qed

lemma limits_setVmax:
  assumes "vmin s \<le> vmax s" "v \<noteq> NaN"
  shows "vmin (setVmax v s) \<le> vmax (setVmax v s)"
proof -
  have "vmin s \<noteq> NaN" using assms(1) by auto
  then show ?thesis using assms
    by (auto simp add: setVmax_def Let_def double_le_refl double_not_less_le)
qed

lemma limits_exec:
  assumes "vmin s \<le> vmax s" "c \<noteq> SetVmin NaN" "c \<noteq> SetVmax NaN"
  shows "vmin (exec c s) \<le> vmax (exec c s)"
  using assms
  by (cases c)
     (simp_all add: setG_def setDt_def setSoftening_def setPosDamping_def setVelDamping_def
        setBodyCount_def setBodyMass_def setBlackHole_def nudge_def Let_def
        limits_setVmin limits_setVmax)

lemma limits_execs:
  assumes "vmin s \<le> vmax s" "SetVmin NaN \<notin> set cs" "SetVmax NaN \<notin> set cs"
  shows "vmin (execs cs s) \<le> vmax (execs cs s)"
  using assms unfolding execs_def
proof (induction cs arbitrary: s)
  case Nil
  then show ?case by simp
next
  case (Cons c cs)
  have "vmin (exec c s) \<le> vmax (exec c s)"
    using Cons.prems by (intro limits_exec) auto
  then show ?case using Cons.prems by (simp add: Cons.IH)
qed

lemma limits_constructed:
  assumes "SetVmin NaN \<notin> set cs" "SetVmax NaN \<notin> set cs"
  shows "vmin (execs cs (Gravity_new s)) \<le> vmax (execs cs (Gravity_new s))"
  using assms by (intro limits_execs) (simp_all add: limits_Gravity_new literals)

text \<open>
  Claim C3 says that \<open>vmin \<le> vmax\<close> holds after every successful call of \<open>setVmin\<close> or
  \<open>setVmax\<close>. The range tests of the two setters are written \<open>v < lo || v > hi\<close>, and both
  comparisons are false when \<open>v\<close> is NaN: the call is accepted, no diagnostic is issued and
  NaN is stored. On a freshly constructed engine, after \<open>setVmin(NaN)\<close> the lower limit is
  NaN, the upper limit is still 5, and \<open>vmin <= vmax\<close> is false; after \<open>setVmax(NaN)\<close> the
  upper limit is NaN, the lower limit is still 1, and \<open>vmin <= vmax\<close> is false.
\<close>

theorem setVmin_accepts_NaN:
  "getVmin (setVmin NaN (Gravity_new s)) = NaN \<and>
   getVmax (setVmin NaN (Gravity_new s)) = dbl 5 \<and>
   \<not> getVmin (setVmin NaN (Gravity_new s)) \<le> getVmax (setVmin NaN (Gravity_new s)) \<and>
   getVmin (setVmax NaN (Gravity_new s)) = dbl 1 \<and>
   getVmax (setVmax NaN (Gravity_new s)) = NaN \<and>
   \<not> getVmin (setVmax NaN (Gravity_new s)) \<le> getVmax (setVmax NaN (Gravity_new s))"
  by (simp add: getVmin_def getVmax_def setVmin_def setVmax_def Let_def limits_Gravity_new)

section \<open>The arrays under configuration and reset\<close>

lemma initBodies_initBody [simp]: "initBodies (initBody i s) = initBodies s"
  by (simp add: initBody_def Let_def)

lemma length_bodies_initBody [simp]: "length (bodies (initBody i s)) = length (bodies s)"
  by (simp add: initBody_def Let_def)

lemma bodies_initBody_other: "j \<noteq> i \<Longrightarrow> bodies (initBody i s) ! j = bodies s ! j"
  by (simp add: initBody_def Let_def)

lemma bodies_initBody_same:
  assumes "i < length (bodies s)"
  shows "x (bodies (initBody i s) ! i) = x (bodies s ! i)"
    "y (bodies (initBody i s) ! i) = y (bodies s ! i)"
    "vx (bodies (initBody i s) ! i) = vx (bodies s ! i)"
    "vy (bodies (initBody i s) ! i) = vy (bodies s ! i)"
    "mass (bodies (initBody i s) ! i) = mass (bodies s ! i)"
  using assms by (simp_all add: initBody_def Let_def)

lemma mass_initBody [simp]: "mass (bodies (initBody i s) ! j) = mass (bodies s ! j)"
  by (cases "j = i"; cases "i < length (bodies s)")
     (simp_all add: initBody_def Let_def list_update_beyond)

lemma Body_overwrite:
  "b\<lparr>x := px, y := py, vx := pvx, vy := pvy, mass := m, ax := pax, ay := pay\<rparr>
     = \<lparr>x = px, y = py, vx = pvx, vy = pvy, ax = pax, ay = pay, mass = m\<rparr>"
  by (cases b) simp

lemma initBodies_setBody:
  "initBodies (setBody i px py pvx pvy m s) =
     (if i < 0 \<or> i > 9 then initBodies s
      else (initBodies s)[nat i := \<lparr>x = px, y = py, vx = pvx, vy = pvy, ax = dbl 0, ay = dbl 0, mass = m\<rparr>])"
  by (simp add: setBody_def Let_def BodyCount_def Body_overwrite)

lemma sizes_setBody [simp]:
  "length (initBodies (setBody i px py pvx pvy m s)) = length (initBodies s)"
  "length (bodies (setBody i px py pvx pvy m s)) = length (bodies s)"
  by (simp_all add: setBody_def Let_def)

lemma initBodies_resetBody [simp]: "initBodies (resetBody i s) = initBodies s"
  by (simp add: resetBody_def Let_def)

lemma length_bodies_resetBody [simp]: "length (bodies (resetBody i s)) = length (bodies s)"
  by (simp add: resetBody_def Let_def)

lemma bodies_resetBody_other: "j \<noteq> i \<Longrightarrow> bodies (resetBody i s) ! j = bodies s ! j"
  by (simp add: resetBody_def Let_def bodies_initBody_other)

lemma mass_resetBody [simp]: "mass (bodies (resetBody i s) ! j) = mass (bodies s ! j)"
  by (cases "j = i"; cases "i < length (bodies s)")
     (simp_all add: resetBody_def Let_def list_update_beyond)

lemma bodies_resetBody_same:
  assumes "i < length (bodies s)"
  shows "x (bodies (resetBody i s) ! i) = x (initBodies s ! i)"
    "y (bodies (resetBody i s) ! i) = y (initBodies s ! i)"
    "vx (bodies (resetBody i s) ! i) = vx (initBodies s ! i)"
    "vy (bodies (resetBody i s) ! i) = vy (initBodies s ! i)"
  using assms by (simp_all add: resetBody_def Let_def bodies_initBody_same)

lemma initBodies_reset [simp]: "initBodies (reset s) = initBodies s"
  unfolding reset_def by (rule fold_keeps) simp

lemma length_bodies_reset [simp]: "length (bodies (reset s)) = length (bodies s)"
  unfolding reset_def by (rule fold_keeps) simp

lemma mass_reset [simp]: "mass (bodies (reset s) ! j) = mass (bodies s ! j)"
  unfolding reset_def by (rule fold_keeps) simp

lemma bodies_reset:
  assumes "i < 10"
  shows "bodies (reset s) ! i = bodies (resetBody i (fold resetBody [0..<i] s)) ! i"
proof -
  have "[0..<10] = [0..<i] @ [i] @ [Suc i..<10]"
    using assms by (metis append_Cons append_Nil less_imp_le_nat upt_add_eq_append upt_conv_Cons
        le0 ordered_cancel_comm_monoid_diff_class.add_diff_inverse)
  then have "reset s = fold resetBody [Suc i..<10] (resetBody i (fold resetBody [0..<i] s))"
    by (simp add: reset_def)
  moreover have "bodies (fold resetBody [Suc i..<10] t) ! i = bodies t ! i" for t
    by (rule fold_keeps_on) (simp add: bodies_resetBody_other)
  ultimately show ?thesis by simp
qed

section \<open>Zeroing and loading presets\<close>

lemma fold_zero:
  "k \<le> length xs \<Longrightarrow> fold (\<lambda>i ys. ys[i := z]) [0..<k] xs = replicate k z @ drop k xs"
proof (induction k)
  case 0
  then show ?case by simp
next
  case (Suc k)
  then have "fold (\<lambda>i ys. ys[i := z]) [0..<Suc k] xs = (replicate k z @ drop k xs)[k := z]"
    by simp
  also have "\<dots> = replicate k z @ (drop k xs)[0 := z]"
    by (simp add: list_update_append)
  also have "(drop k xs)[0 := z] = z # drop (Suc k) xs"
    using Suc.prems by (metis Cons_nth_drop_Suc Suc_le_lessD list_update_code(2))
  finally show ?case by (simp add: replicate_append_same)
qed

lemma arrays_resetBodies:
  "bodies (fold (\<lambda>i t. t\<lparr>bodies := (bodies t)[i := z], initBodies := (initBodies t)[i := z]\<rparr>) is s)
     = fold (\<lambda>i ys. ys[i := z]) is (bodies s)"
  "initBodies (fold (\<lambda>i t. t\<lparr>bodies := (bodies t)[i := z], initBodies := (initBodies t)[i := z]\<rparr>) is s)
     = fold (\<lambda>i ys. ys[i := z]) is (initBodies s)"
  by (induction "is" arbitrary: s) simp_all

lemma resetBodies_zeroes:
  assumes "wellformed s"
  shows "bodies (resetBodies s) = replicate 10 Body_zero"
    "initBodies (resetBodies s) = replicate 10 Body_zero"
  using assms fold_zero[of 10 "bodies s" Body_zero] fold_zero[of 10 "initBodies s" Body_zero]
  by (simp_all add: resetBodies_def BodyCount_def arrays_resetBodies wellformed_def)

lemma sizes_resetBodies [simp]:
  "length (bodies (resetBodies s)) = length (bodies s)"
  "length (initBodies (resetBodies s)) = length (initBodies s)"
  unfolding resetBodies_def by (rule fold_keeps, simp)+

lemma sizes_applyPreset [simp]:
  "length (bodies (applyPreset p s)) = length (bodies s)"
  "length (initBodies (applyPreset p s)) = length (initBodies s)"
  by (rule applyPreset_keeps;
      simp add: setG_def setDt_def setSoftening_def setPosDamping_def
          setVelDamping_def setBodyCount_def rand_def)+

lemma wellformed_exec [simp]: "wellformed (exec c s) = wellformed s"
proof -
  have "length (bodies (simulate s)) = length (bodies s)"
    using inert_simulate[of s] by (simp add: inert_def)
  moreover have "initBodies (simulate s) = initBodies s"
    by (rule others_fields[OF others_simulate])
  ultimately show ?thesis
    by (cases c)
       (simp_all add: wellformed_def setG_def setDt_def setSoftening_def setPosDamping_def
          setVelDamping_def setBodyCount_def setBodyMass_def setBlackHole_def setVmin_def
          setVmax_def nudge_def loadPreset_def Let_def)
qed

lemma wellformed_execs [simp]: "wellformed (execs cs s) = wellformed s"
  unfolding execs_def by (induction cs arbitrary: s) simp_all

lemma wellformed_Gravity_new: "wellformed s \<Longrightarrow> wellformed (Gravity_new s)"
  by (simp add: Gravity_new_def loadPreset_def Let_def wellformed_def initParams_def)

text \<open>
  Claim C7. \<open>loadPreset\<close> on any index is \<open>loadPreset\<close> on the index clamped into
  \<open>[1, 14]\<close>; no index is rejected. Every call first runs \<open>resetBodies\<close>, which makes all
  ten live and all ten initial records zero, and then runs the case of the clamped index
  on the zeroed engine.
\<close>

theorem loadPreset_clamps:
  "loadPreset i s = loadPreset (max 1 (min 14 i)) s \<and>
   loadPreset i s = applyPreset (max 1 (min 14 i) - 1) (resetBodies s) \<and>
   (wellformed s \<longrightarrow> bodies (resetBodies s) = replicate 10 Body_zero \<and>
                      initBodies (resetBodies s) = replicate 10 Body_zero)"
proof -
  have c: "clampPreset i = max 1 (min 14 i)" for i
    by (simp add: clampPreset_def)
  have "clampPreset (max 1 (min 14 i)) = max 1 (min 14 i)"
    by (simp add: clampPreset_def)
  then show ?thesis
    by (simp add: loadPreset_def Let_def c resetBodies_zeroes)
qed

theorem loadPreset_clamps_witness:
  "wellformed engine0 \<and> loadPreset 20 engine0 = loadPreset 14 engine0 \<and>
   loadPreset (- 3) engine0 = loadPreset 1 engine0 \<and>
   bodies (resetBodies engine0) = replicate 10 Body_zero \<and>
   initBodies (resetBodies engine0) = replicate 10 Body_zero"
  using loadPreset_clamps[of 20 engine0] loadPreset_clamps[of "- 3" engine0]
  by (simp add: wellformed_def engine0_def)

section \<open>The figure-eight preset\<close>

lemma fold_setBody_params [simp]:
  "G (fold (\<lambda>i. setBody (int i) a b c d m) xs s) = G s"
  "dt (fold (\<lambda>i. setBody (int i) a b c d m) xs s) = dt s"
  "body_count (fold (\<lambda>i. setBody (int i) a b c d m) xs s) = body_count s"
  by (rule fold_keeps, simp)+

text \<open>
  Claim C8. After \<open>loadPreset(8)\<close> on an engine with its two arrays of ten records,
  \<open>getBodyCount\<close> returns 3, \<open>getG\<close> returns 1.0, \<open>getDt\<close> returns 0.005, and the initial
  record of body 0 has position \<open>(0, 0)\<close> and velocity \<open>(0.347111, 0.532728)\<close>.
\<close>

theorem figure_eight_preset:
  assumes "wellformed s"
  shows "getBodyCount (loadPreset 8 s) = 3 \<and> getG (loadPreset 8 s) = dbl 1.0 \<and>
         getDt (loadPreset 8 s) = dbl 0.005 \<and>
         x (getInitBody 0 (loadPreset 8 s)) = dbl 0 \<and>
         y (getInitBody 0 (loadPreset 8 s)) = dbl 0 \<and>
         vx (getInitBody 0 (loadPreset 8 s)) = dbl 0.347111 \<and>
         vy (getInitBody 0 (loadPreset 8 s)) = dbl 0.532728"
proof -
  have l: "loadPreset 8 s = preset_case7 (resetBodies s)"
    by (simp add: loadPreset_def clampPreset_def applyPreset_def Let_def)
  have len: "0 < length (initBodies (resetBodies s))"
    using assms by (simp add: wellformed_def)
  have keep: "initBodies (fold (\<lambda>i. setBody (int i) (Fin 0) (Fin 0) (Fin 0) (Fin 0) (Fin 0))
                  [3..<nat BodyCount] t) ! 0
                = initBodies t ! 0" for t
    by (rule fold_keeps_on) (simp add: initBodies_setBody)
  have params: "body_count (preset_case7 t) = 3 \<and> G (preset_case7 t) = dbl 1.0 \<and>
                dt (preset_case7 t) = dbl 0.005" for t
    by (simp add: preset_case7_def calls_def setBodyCount_def BodyCount_def setG_def setDt_def
          setSoftening_def setPosDamping_def setVelDamping_def float_0_1_def literals)
  have rec: "0 < length (initBodies t) \<Longrightarrow>
          initBodies (preset_case7 t) ! 0
            = \<lparr>x = dbl 0, y = dbl 0, vx = dbl 0.347111, vy = dbl 0.532728,
               ax = dbl 0, ay = dbl 0, mass = dbl 1\<rparr>" for t
    by (simp add: preset_case7_def calls_def keep initBodies_setBody setBodyCount_def setG_def
          setDt_def setSoftening_def setPosDamping_def setVelDamping_def float_0_1_def literals)
  show ?thesis
    using params[of "resetBodies s"] rec[OF len]
    by (simp add: l getBodyCount_def getG_def getDt_def getInitBody_def BodyCount_def)
qed

theorem figure_eight_preset_witness:
  "wellformed engine0 \<and> getBodyCount (loadPreset 8 engine0) = 3 \<and>
   getG (loadPreset 8 engine0) = dbl 1.0 \<and> getDt (loadPreset 8 engine0) = dbl 0.005 \<and>
   vx (getInitBody 0 (loadPreset 8 engine0)) = dbl 0.347111"
  using figure_eight_preset[of engine0] by (simp add: wellformed_def engine0_def)

section \<open>Speed clamping\<close>

lemma clampSpeed_unchanged:
  assumes "calcSpeed pvx pvy = 0 \<or> (\<not> calcSpeed pvx pvy < lo \<and> \<not> calcSpeed pvx pvy > hi)"
  shows "clampSpeed pvx pvy lo hi = (pvx, pvy)"
  using assms by (auto simp add: clampSpeed_def Let_def)


text \<open>
  The clamp of \<open>(6, 8)\<close> with the bounds \<open>(1, 5)\<close>, on which every operation is exact:
  the speed is 10, the factor is \<open>0.5\<close> and the result \<open>(3, 4)\<close> has the speed 5.
\<close>

lemma clamp_68_xx: "Fin 6 * Fin 6 = Fin 36"
  unfolding Fin_times by (rule fin_eval[where e = "5" and n = "5066549580791808"]) simp_all

lemma clamp_68_yy: "Fin 8 * Fin 8 = Fin 64"
  unfolding Fin_times by (rule fin_eval[where e = "6" and n = "4503599627370496"]) simp_all

lemma clamp_68_sum: "Fin 36 + Fin 64 = Fin 100"
  unfolding Fin_plus by (rule fin_eval[where e = "6" and n = "7036874417766400"]) simp_all

lemma clamp_68_speed: "dsqrt (Fin 100) = Fin 10"
  by (rule dsqrt_eval[where e = "3" and n = "5629499534213120"]) (simp_all add: power2_eq_square)

lemma clamp_68_scale: "Fin 5 / Fin 10 = Fin (1 / 2)"
  unfolding divide_double_def ddiv.simps
  by (simp, rule fin_eval[where e = "- 1" and n = "4503599627370496"]) simp_all

lemma clamp_68_x: "Fin 6 * Fin (1 / 2) = Fin 3"
  unfolding Fin_times by (rule fin_eval[where e = "1" and n = "6755399441055744"]) simp_all

lemma clamp_68_y: "Fin 8 * Fin (1 / 2) = Fin 4"
  unfolding Fin_times by (rule fin_eval[where e = "2" and n = "4503599627370496"]) simp_all

lemma clamp_34_xx: "Fin 3 * Fin 3 = Fin 9"
  unfolding Fin_times by (rule fin_eval[where e = "3" and n = "5066549580791808"]) simp_all

lemma clamp_34_yy: "Fin 4 * Fin 4 = Fin 16"
  unfolding Fin_times by (rule fin_eval[where e = "4" and n = "4503599627370496"]) simp_all

lemma clamp_34_sum: "Fin 9 + Fin 16 = Fin 25"
  unfolding Fin_plus by (rule fin_eval[where e = "4" and n = "7036874417766400"]) simp_all

lemma clamp_34_speed: "dsqrt (Fin 25) = Fin 5"
  by (rule dsqrt_eval[where e = "2" and n = "5629499534213120"]) (simp_all add: power2_eq_square)





text \<open>
  The clamp of \<open>(0.1, 0.2)\<close> with the bounds \<open>(1, 5)\<close> of a constructed engine, and the
  clamp of its result, operation by operation.
\<close>

lemma once_xx: "Fin (3602879701896397 / 36028797018963968) * Fin (3602879701896397 / 36028797018963968) = Fin (1441151880758559 / 144115188075855872)"
  unfolding Fin_times by (rule fin_eval[where e = "- 7" and n = "5764607523034236"]) simp_all

lemma once_yy: "Fin (3602879701896397 / 18014398509481984) * Fin (3602879701896397 / 18014398509481984) = Fin (1441151880758559 / 36028797018963968)"
  unfolding Fin_times by (rule fin_eval[where e = "- 5" and n = "5764607523034236"]) simp_all

lemma once_sum: "Fin (1441151880758559 / 144115188075855872) + Fin (1441151880758559 / 36028797018963968) = Fin (7205759403792795 / 144115188075855872)"
  unfolding Fin_plus by (rule fin_eval[where e = "- 5" and n = "7205759403792795"]) simp_all

lemma once_speed: "dsqrt (Fin (7205759403792795 / 144115188075855872)) = Fin (4028141964097261 / 18014398509481984)"
  by (rule dsqrt_eval[where e = "- 3" and n = "8056283928194522"]) (simp_all add: power2_eq_square)

lemma once_scale: "Fin 1 / Fin (4028141964097261 / 18014398509481984) = Fin (5035177455121575 / 1125899906842624)"
  unfolding divide_double_def ddiv.simps
  by (simp, rule fin_eval[where e = "2" and n = "5035177455121575"]) simp_all

lemma once_x: "Fin (3602879701896397 / 36028797018963968) * Fin (5035177455121575 / 1125899906842624) = Fin (1007035491024315 / 2251799813685248)"
  unfolding Fin_times by (rule fin_eval[where e = "- 2" and n = "8056283928194520"]) simp_all

lemma once_y: "Fin (3602879701896397 / 18014398509481984) * Fin (5035177455121575 / 1125899906842624) = Fin (1007035491024315 / 1125899906842624)"
  unfolding Fin_times by (rule fin_eval[where e = "- 1" and n = "8056283928194520"]) simp_all

lemma twice_xx: "Fin (1007035491024315 / 2251799813685248) * Fin (1007035491024315 / 2251799813685248) = Fin (7205759403792791 / 36028797018963968)"
  unfolding Fin_times by (rule fin_eval[where e = "- 3" and n = "7205759403792791"]) simp_all

lemma twice_yy: "Fin (1007035491024315 / 1125899906842624) * Fin (1007035491024315 / 1125899906842624) = Fin (7205759403792791 / 9007199254740992)"
  unfolding Fin_times by (rule fin_eval[where e = "- 1" and n = "7205759403792791"]) simp_all

lemma twice_sum: "Fin (7205759403792791 / 36028797018963968) + Fin (7205759403792791 / 9007199254740992) = Fin (9007199254740989 / 9007199254740992)"
  unfolding Fin_plus by (rule fin_eval[where e = "- 1" and n = "9007199254740989"]) simp_all

lemma twice_speed: "dsqrt (Fin (9007199254740989 / 9007199254740992)) = Fin (4503599627370495 / 4503599627370496)"
  by (rule dsqrt_eval[where e = "- 1" and n = "9007199254740990"]) (simp_all add: power2_eq_square)

lemma twice_scale: "Fin 1 / Fin (4503599627370495 / 4503599627370496) = Fin (4503599627370497 / 4503599627370496)"
  unfolding divide_double_def ddiv.simps
  by (simp, rule fin_eval[where e = "0" and n = "4503599627370497"]) simp_all

lemma twice_x: "Fin (1007035491024315 / 2251799813685248) * Fin (4503599627370497 / 4503599627370496) = Fin (4028141964097261 / 9007199254740992)"
  unfolding Fin_times by (rule fin_eval[where e = "- 2" and n = "8056283928194522"]) simp_all

lemma twice_y: "Fin (1007035491024315 / 1125899906842624) * Fin (4503599627370497 / 4503599627370496) = Fin (4028141964097261 / 4503599627370496)"
  unfolding Fin_times by (rule fin_eval[where e = "- 1" and n = "8056283928194522"]) simp_all

lemma calcSpeed_once: "calcSpeed (Fin (3602879701896397 / 36028797018963968)) (Fin (3602879701896397 / 18014398509481984)) = Fin (4028141964097261 / 18014398509481984)"
  unfolding calcSpeed_def once_xx once_yy once_sum once_speed ..

lemma clampSpeed_once:
  "clampSpeed (dbl 0.1) (dbl 0.2) (dbl 1) (dbl 5) = (Fin (1007035491024315 / 2251799813685248), Fin (1007035491024315 / 1125899906842624))"
proof -
  have c: "Fin (4028141964097261 / 18014398509481984) \<noteq> 0" "Fin (4028141964097261 / 18014398509481984) < Fin 1"
    by simp_all
  have "clampSpeed (Fin (3602879701896397 / 36028797018963968)) (Fin (3602879701896397 / 18014398509481984)) (Fin 1) (Fin 5) = (Fin (1007035491024315 / 2251799813685248), Fin (1007035491024315 / 1125899906842624))"
    unfolding clampSpeed_def calcSpeed_once Let_def
    using c by (simp only: if_True if_False once_scale once_x once_y)
  then show ?thesis by (simp add: literals)
qed

lemma calcSpeed_twice: "calcSpeed (Fin (1007035491024315 / 2251799813685248)) (Fin (1007035491024315 / 1125899906842624)) = Fin (4503599627370495 / 4503599627370496)"
  unfolding calcSpeed_def twice_xx twice_yy twice_sum twice_speed ..

lemma clampSpeed_twice:
  "clampSpeed (Fin (1007035491024315 / 2251799813685248)) (Fin (1007035491024315 / 1125899906842624)) (dbl 1) (dbl 5) = (Fin (4028141964097261 / 9007199254740992), Fin (4028141964097261 / 4503599627370496))"
proof -
  have c: "Fin (4503599627370495 / 4503599627370496) \<noteq> 0" "Fin (4503599627370495 / 4503599627370496) < Fin 1"
    by simp_all
  have "clampSpeed (Fin (1007035491024315 / 2251799813685248)) (Fin (1007035491024315 / 1125899906842624)) (Fin 1) (Fin 5) = (Fin (4028141964097261 / 9007199254740992), Fin (4028141964097261 / 4503599627370496))"
    unfolding clampSpeed_def calcSpeed_twice Let_def
    using c by (simp only: if_True if_False twice_scale twice_x twice_y)
  then show ?thesis by (simp add: literals)
qed


section \<open>Reset against configuration\<close>

lemma bodies_setBody_other:
  "j \<noteq> nat i \<Longrightarrow> bodies (setBody i px py pvx pvy m s) ! j = bodies s ! j"
  by (simp add: setBody_def Let_def bodies_initBody_other)

lemma bodies_setBody_same:
  assumes "0 \<le> i" "i \<le> 9" "nat i < length (bodies s)"
  shows "x (bodies (setBody i px py pvx pvy m s) ! nat i) = px"
    "y (bodies (setBody i px py pvx pvy m s) ! nat i) = py"
    "vx (bodies (setBody i px py pvx pvy m s) ! nat i) = pvx"
    "vy (bodies (setBody i px py pvx pvy m s) ! nat i) = pvy"
    "mass (bodies (setBody i px py pvx pvy m s) ! nat i) = m"
  using assms by (simp_all add: setBody_def Let_def BodyCount_def bodies_initBody_same)

lemma bodies_setBody_nat:
  assumes "j < 10" "j < length (bodies s)"
  shows "x (bodies (setBody (int j) px py pvx pvy m s) ! j) = px"
    "y (bodies (setBody (int j) px py pvx pvy m s) ! j) = py"
    "vx (bodies (setBody (int j) px py pvx pvy m s) ! j) = pvx"
    "vy (bodies (setBody (int j) px py pvx pvy m s) ! j) = pvy"
    "mass (bodies (setBody (int j) px py pvx pvy m s) ! j) = m"
  using assms bodies_setBody_same[of "int j" s px py pvx pvy m] by simp_all

lemma acceleration_initBody:
  assumes "i < length (bodies s)"
  shows "ax (bodies (initBody i s) ! i)
           = fst (computeAcceleration s i)
             - x (bodies s ! i) * calcPositionDamping (x (bodies s ! i)) (y (bodies s ! i)) (pos_damping s)"
    "ay (bodies (initBody i s) ! i)
           = snd (computeAcceleration s i)
             - y (bodies s ! i) * calcPositionDamping (x (bodies s ! i)) (y (bodies s ! i)) (pos_damping s)"
  using assms by (simp_all add: initBody_def Let_def)

text \<open>
  Two pairs on which every operation of \<open>computeAcceleration\<close> is exact: two bodies at the
  origin with softening 0 (the pair is skipped), and a body of mass 1 at \<open>(1, 0)\<close> seen
  from the origin with \<open>G = 1\<close> and softening 0 (the pair adds \<open>(1, 0)\<close>).
\<close>

lemma accumulatePair_origin:
  assumes "x b1 = 0" "y b1 = 0" "x b2 = 0" "y b2 = 0" "softening s = 0"
  shows "accumulatePair s b1 b2 acc = acc"
proof -
  have d: "softenedDistSqr (Fin 0) b1 b2 = Fin 0"
    using assms
    by (simp add: softenedDistSqr_def calcRelativePositionVector_def calcEuclideanDistance_def
          std_max_def Let_def)
  show ?thesis
    using assms by (simp add: accumulatePair_def pairSkipped_def d literals)
qed

lemma accumulatePair_unit:
  assumes "x b1 = 0" "y b1 = 0" "x b2 = 1" "y b2 = 0" "mass b2 = 1" "G s = 1" "softening s = 0"
  shows "accumulatePair s b1 b2 (0, 0) = (1, 0)"
proof -
  have d: "softenedDistSqr (Fin 0) b1 b2 = Fin 1"
    using assms
    by (simp add: softenedDistSqr_def calcRelativePositionVector_def calcEuclideanDistance_def
          std_max_def Let_def fin_1 rnd_1)
  show ?thesis
    using assms
    by (simp add: accumulatePair_def pairSkipped_def d calcRelativePositionVector_def Let_def
          literals fin_1 rnd_1)
qed

lemma damping_at_origin:
  assumes "fin pd = Fin pd"
  shows "Fin 0 * calcPositionDamping (Fin 0) (Fin 0) (Fin pd) = Fin 0"
  using assms by (simp add: calcPositionDamping_def Let_def fin_1)

lemma computeAcceleration_pair:
  assumes "body_count s = 2" "mass (blackHole s) = 0"
  shows "computeAcceleration s 0 = accumulatePair s (bodies s ! 0) (bodies s ! 1) (0, 0)"
    "computeAcceleration s 1 = accumulatePair s (bodies s ! 1) (bodies s ! 0) (0, 0)"
proof -
  have n: "nat (body_count s + 1) = 3" using assms(1) by simp
  have l: "[0..<3] = [0, 1, 2::nat]" by (simp add: upt_rec)
  show "computeAcceleration s 0 = accumulatePair s (bodies s ! 0) (bodies s ! 1) (0, 0)"
    using assms unfolding computeAcceleration_def n l
    by (simp add: accelerationStep_def Let_def)
  show "computeAcceleration s 1 = accumulatePair s (bodies s ! 1) (bodies s ! 0) (0, 0)"
    using assms unfolding computeAcceleration_def n l
    by (simp add: accelerationStep_def Let_def)
qed

lemma reset_after_two_bodies:
  assumes "wellformed s" "pos_damping s = Fin pd" "fin pd = Fin pd"
  shows "ax (bodies (execs [SetBodyCount 2, SetG 1, SetSoftening 0, SetBlackHole 0 0 0,
                            SetBody 1 0 0 0 0 0, SetBody 0 0 0 0 0 1, SetBody 1 1 0 0 0 1] s) ! 0) = 0"
    and "ax (bodies (reset (execs [SetBodyCount 2, SetG 1, SetSoftening 0, SetBlackHole 0 0 0,
                            SetBody 1 0 0 0 0 0, SetBody 0 0 0 0 0 1, SetBody 1 1 0 0 0 1] s)) ! 0) = 1"
proof -
  define s1 where "s1 = setBlackHole 0 0 0 (setSoftening 0 (setG 1 (setBodyCount 2 s)))"
  define s2 where "s2 = setBody 1 0 0 0 0 0 s1"
  define t1 where "t1 = setBody 0 0 0 0 0 1 s2"
  define t2 where "t2 = setBody 1 1 0 0 0 1 t1"
  define pre1 where "pre1 = s2\<lparr>bodies := (bodies s2)[0 :=
        (bodies s2 ! 0)\<lparr>x := 0, y := 0, vx := 0, vy := 0, mass := 1\<rparr>],
      initBodies := (initBodies s2)[0 :=
        (initBodies s2 ! 0)\<lparr>x := 0, y := 0, vx := 0, vy := 0, mass := 1, ax := 0, ay := 0\<rparr>]\<rparr>"
  define pre2 where "pre2 = t2\<lparr>bodies := (bodies t2)[0 :=
        (bodies t2 ! 0)\<lparr>x := x (initBodies t2 ! 0), y := y (initBodies t2 ! 0),
                         vx := vx (initBodies t2 ! 0), vy := vy (initBodies t2 ! 0),
                         ax := ax (initBodies t2 ! 0), ay := ay (initBodies t2 ! 0)\<rparr>]\<rparr>"
  have e: "execs [SetBodyCount 2, SetG 1, SetSoftening 0, SetBlackHole 0 0 0,
                  SetBody 1 0 0 0 0 0, SetBody 0 0 0 0 0 1, SetBody 1 1 0 0 0 1] s = t2"
    by (simp add: execs_def t2_def t1_def s2_def s1_def)
  have f1: "body_count s1 = 2" "G s1 = 1" "softening s1 = 0" "mass (blackHole s1) = 0"
    "length (bodies s1) = 10" "length (initBodies s1) = 10" "pos_damping s1 = Fin pd"
    using assms
    by (simp_all add: s1_def setBlackHole_def setSoftening_def setG_def setBodyCount_def
          BodyCount_def float_0_1_def wellformed_def literals)
  have l1: "(1::nat) < 10" "1 < length (bodies s1)"
    using f1 by simp_all
  have f2: "x (bodies s2 ! 1) = 0" "y (bodies s2 ! 1) = 0"
    using bodies_setBody_nat[OF l1, of 0 0 0 0 0] unfolding s2_def by (simp_all only: of_nat_1)
  have g2: "body_count s2 = 2" "G s2 = 1" "softening s2 = 0" "mass (blackHole s2) = 0"
    "length (bodies s2) = 10" "length (initBodies s2) = 10" "pos_damping s2 = Fin pd"
    using f1 by (simp_all add: s2_def)
  note dz = damping_at_origin[OF assms(3)]
  have t1: "t1 = initBody 0 pre1"
    by (simp add: t1_def pre1_def setBody_def Let_def BodyCount_def)
  have p1: "body_count pre1 = 2" "mass (blackHole pre1) = 0" "0 < length (bodies pre1)"
    "x (bodies pre1 ! 0) = 0" "y (bodies pre1 ! 0) = 0"
    "x (bodies pre1 ! 1) = 0" "y (bodies pre1 ! 1) = 0" "softening pre1 = 0"
    using g2 f2 by (simp_all add: pre1_def del: One_nat_def)
  have "accumulatePair pre1 (bodies pre1 ! 0) (bodies pre1 ! 1) (0, 0) = (0, 0)"
    by (rule accumulatePair_origin) (simp_all only: p1)
  then have c1: "computeAcceleration pre1 0 = (0, 0)"
    unfolding computeAcceleration_pair(1)[OF p1(1,2)] .
  have d1: "pos_damping pre1 = Fin pd"
    using g2 by (simp add: pre1_def)
  have a1: "ax (bodies t1 ! 0) = 0"
    unfolding t1 acceleration_initBody(1)[OF p1(3)] c1 p1 d1 by (simp add: dz)
  have a2: "ax (bodies t2 ! 0) = 0"
    using a1 by (simp add: t2_def bodies_setBody_other)
  have len: "length (bodies t1) = 10" "length (bodies t2) = 10"
    using g2 by (simp_all add: t1_def t2_def)
  have i0: "initBodies t2 ! 0 = \<lparr>x = 0, y = 0, vx = 0, vy = 0, ax = 0, ay = 0, mass = 1\<rparr>"
    using g2 by (simp add: t1_def t2_def initBodies_setBody)
  have l2: "(1::nat) < 10" "1 < length (bodies t1)"
    using len by simp_all
  have b1: "x (bodies t2 ! 1) = 1" "y (bodies t2 ! 1) = 0" "mass (bodies t2 ! 1) = 1"
    using bodies_setBody_nat[OF l2, of 1 0 0 0 1] unfolding t2_def by (simp_all only: of_nat_1)
  have p2: "body_count pre2 = 2" "mass (blackHole pre2) = 0" "G pre2 = 1" "softening pre2 = 0"
    "0 < length (bodies pre2)"
    using len g2 by (simp_all add: pre2_def t1_def t2_def)
  have q: "x (bodies pre2 ! 0) = 0" "y (bodies pre2 ! 0) = 0"
    "x (bodies pre2 ! 1) = 1" "y (bodies pre2 ! 1) = 0" "mass (bodies pre2 ! 1) = 1"
    using len b1 by (simp_all add: pre2_def i0 del: One_nat_def)
  have "accumulatePair pre2 (bodies pre2 ! 0) (bodies pre2 ! 1) (0, 0) = (1, 0)"
    by (rule accumulatePair_unit) (fact q p2)+
  then have c2: "computeAcceleration pre2 0 = (1, 0)"
    unfolding computeAcceleration_pair(1)[OF p2(1,2)] .
  have r: "resetBody 0 t2 = initBody 0 pre2"
    by (simp add: resetBody_def pre2_def Let_def)
  have d2: "pos_damping pre2 = Fin pd"
    using g2 by (simp add: pre2_def t1_def t2_def)
  have "ax (bodies (initBody 0 pre2) ! 0) = 1"
    unfolding acceleration_initBody(1)[OF p2(5)] c2 q d2 by (simp add: dz fin_1)
  moreover have "bodies (reset t2) ! 0 = bodies (resetBody 0 t2) ! 0"
    using bodies_reset[of 0 t2] by simp
  ultimately have a3: "ax (bodies (reset t2) ! 0) = 1"
    by (simp only: r)
  show "ax (bodies (execs [SetBodyCount 2, SetG 1, SetSoftening 0, SetBlackHole 0 0 0,
                            SetBody 1 0 0 0 0 0, SetBody 0 0 0 0 0 1, SetBody 1 1 0 0 0 1] s) ! 0) = 0"
    unfolding e by (rule a2)
  show "ax (bodies (reset (execs [SetBodyCount 2, SetG 1, SetSoftening 0, SetBlackHole 0 0 0,
                            SetBody 1 0 0 0 0 0, SetBody 0 0 0 0 0 1, SetBody 1 1 0 0 0 1] s)) ! 0) = 1"
    unfolding e by (rule a3)
qed

lemma wellformed_engine0: "wellformed engine0"
  by (simp add: wellformed_def engine0_def)

lemma pos_damping_Gravity_new:
  "pos_damping (Gravity_new s) = Fin (4722366482869645 / 2361183241434822606848)"
  by (simp add: Gravity_new_def loadPreset_def Let_def clampPreset_def applyPreset_def
        preset_case0_def calls_def setBodyCount_def setG_def setDt_def setSoftening_def
        setVelDamping_def setPosDamping_def literals posDamping_0_02)

text \<open>
  Claim C1 as stated fails at its last part. On a constructed engine, two bodies are
  made active and the second is parked at the origin with mass 0. Body 0 is configured at
  the origin, where \<open>setBody\<close> computes the acceleration 0 for it; body 1 is then
  configured at \<open>(1, 0)\<close> with mass 1, which leaves body 0 as it is. \<open>reset\<close> recomputes
  the acceleration of body 0 with body 1 in place and stores 1.
\<close>

theorem reset_recomputes_acceleration:
  "ax (getBody 0 (execs [SetBodyCount 2, SetG 1, SetSoftening 0, SetBlackHole 0 0 0,
                         SetBody 1 0 0 0 0 0, SetBody 0 0 0 0 0 1, SetBody 1 1 0 0 0 1]
                        (Gravity_new engine0))) = 0 \<and>
   ax (getBody 0 (reset (execs [SetBodyCount 2, SetG 1, SetSoftening 0, SetBlackHole 0 0 0,
                                SetBody 1 0 0 0 0 0, SetBody 0 0 0 0 0 1, SetBody 1 1 0 0 0 1]
                               (Gravity_new engine0)))) = 1"
  using reset_after_two_bodies[OF wellformed_Gravity_new[OF wellformed_engine0]
          pos_damping_Gravity_new fin_posDamping_0_02]
  by (simp add: getBody_def BodyCount_def)

lemma initBodies_exec:
  assumes "\<not> configures i c"
  shows "initBodies (exec c s) ! i = initBodies s ! i"
proof -
  have "initBodies (simulate s) = initBodies s"
    by (rule others_fields[OF others_simulate])
  then show ?thesis
    using assms
    by (cases c)
       (auto simp: setG_def setDt_def setSoftening_def setPosDamping_def
          setVelDamping_def setBodyCount_def setBodyMass_def setBlackHole_def setVmin_def
          setVmax_def nudge_def Let_def initBodies_setBody)
qed

lemma initBodies_execs:
  assumes "\<forall>c \<in> set cs. \<not> configures i c"
  shows "initBodies (execs cs s) ! i = initBodies s ! i"
  using assms unfolding execs_def
  by (induction cs arbitrary: s) (simp_all add: initBodies_exec)

lemma setBody_as_initBody:
  "i < 10 \<Longrightarrow> setBody (int i) px py pvx pvy m s = initBody i (writeBody i px py pvx pvy m s)"
  by (simp add: setBody_def writeBody_def Let_def BodyCount_def)

lemma resetBody_as_initBody: "resetBody i s = initBody i (copyInitial i s)"
  by (simp add: resetBody_def copyInitial_def Let_def)

lemma position_copyInitial:
  assumes "i < length (bodies s)"
  shows "x (bodies (copyInitial i s) ! i) = x (initBodies s ! i)"
    "y (bodies (copyInitial i s) ! i) = y (initBodies s ! i)"
  using assms by (simp_all add: copyInitial_def)

lemma position_writeBody:
  assumes "i < length (bodies s)"
  shows "x (bodies (writeBody i px py pvx pvy m s) ! i) = px"
    "y (bodies (writeBody i px py pvx pvy m s) ! i) = py"
  using assms by (simp_all add: writeBody_def)

lemma sizes_copyInitial [simp]:
  "length (bodies (copyInitial i s)) = length (bodies s)"
  "pos_damping (copyInitial i s) = pos_damping s"
  "initBodies (copyInitial i s) = initBodies s"
  by (simp_all add: copyInitial_def)

lemma sizes_writeBody [simp]:
  "length (bodies (writeBody i px py pvx pvy m s)) = length (bodies s)"
  "pos_damping (writeBody i px py pvx pvy m s) = pos_damping s"
  by (simp_all add: writeBody_def)

lemma pos_damping_resets [simp]:
  "pos_damping (fold resetBody js s) = pos_damping s"
  by (rule fold_keeps) (rule config_fields[OF config_resetBody])

text \<open>
  Claim C1, amended. Let body \<open>i\<close> be configured by \<open>setBody\<close> and let any calls follow
  that do not configure that slot again (no \<open>setBody\<close> on it, no \<open>loadPreset\<close>). Then
  \<open>reset\<close> gives body \<open>i\<close> exactly the position and velocity that \<open>setBody\<close> wrote, keeps
  the mass that the body has at the time of the reset, and leaves \<open>initBodies\<close> alone.
  The acceleration of body \<open>i\<close> after \<open>reset\<close> is recomputed by \<open>initBody\<close>, the function
  that \<open>setBody\<close> uses too: it is the result of \<open>computeAcceleration\<close> minus the position
  damping term, evaluated on the engine as iteration \<open>i\<close> of the loop finds it (the
  bodies below \<open>i\<close> already reset, the others not yet, body \<open>i\<close> back at its configured
  position), whereas \<open>setBody\<close> evaluated the same expression on the engine as it was
  at the time of the configuration.
\<close>

theorem reset_restores:
  assumes "wellformed s" "i < 10" "\<forall>c \<in> set cs. \<not> configures i c"
  shows "x (getBody (int i) (reset (execs cs (setBody (int i) px py pvx pvy m s)))) = px \<and>
         y (getBody (int i) (reset (execs cs (setBody (int i) px py pvx pvy m s)))) = py \<and>
         vx (getBody (int i) (reset (execs cs (setBody (int i) px py pvx pvy m s)))) = pvx \<and>
         vy (getBody (int i) (reset (execs cs (setBody (int i) px py pvx pvy m s)))) = pvy \<and>
         mass (getBody (int i) (reset (execs cs (setBody (int i) px py pvx pvy m s))))
           = mass (getBody (int i) (execs cs (setBody (int i) px py pvx pvy m s))) \<and>
         initBodies (reset (execs cs (setBody (int i) px py pvx pvy m s)))
           = initBodies (execs cs (setBody (int i) px py pvx pvy m s)) \<and>
         getBody (int i) (reset (execs cs (setBody (int i) px py pvx pvy m s)))
           = getBody (int i)
               (initBody i (copyInitial i
                  (fold resetBody [0..<i] (execs cs (setBody (int i) px py pvx pvy m s))))) \<and>
         ax (getBody (int i) (reset (execs cs (setBody (int i) px py pvx pvy m s))))
           = fst (computeAcceleration
                    (copyInitial i
                       (fold resetBody [0..<i] (execs cs (setBody (int i) px py pvx pvy m s)))) i)
             - px * calcPositionDamping px py
                      (pos_damping (execs cs (setBody (int i) px py pvx pvy m s))) \<and>
         ay (getBody (int i) (reset (execs cs (setBody (int i) px py pvx pvy m s))))
           = snd (computeAcceleration
                    (copyInitial i
                       (fold resetBody [0..<i] (execs cs (setBody (int i) px py pvx pvy m s)))) i)
             - py * calcPositionDamping px py
                      (pos_damping (execs cs (setBody (int i) px py pvx pvy m s))) \<and>
         ax (getBody (int i) (setBody (int i) px py pvx pvy m s))
           = fst (computeAcceleration (writeBody i px py pvx pvy m s) i)
             - px * calcPositionDamping px py (pos_damping s) \<and>
         ay (getBody (int i) (setBody (int i) px py pvx pvy m s))
           = snd (computeAcceleration (writeBody i px py pvx pvy m s) i)
             - py * calcPositionDamping px py (pos_damping s)"
proof -
  let ?c = "setBody (int i) px py pvx pvy m s"
  let ?t = "execs cs ?c"
  let ?u = "fold resetBody [0..<i] ?t"
  have wc: "wellformed ?c"
    using assms(1) by (simp add: wellformed_def)
  then have "wellformed ?t" by simp
  then have len: "i < length (bodies ?t)" "i < length (initBodies s)" "i < length (bodies s)"
    using assms(1,2) by (simp_all add: wellformed_def)
  have ib: "initBodies ?t ! i = \<lparr>x = px, y = py, vx = pvx, vy = pvy, ax = 0, ay = 0, mass = m\<rparr>"
    using assms(2) len(2) by (simp add: initBodies_execs[OF assms(3)] initBodies_setBody dbl_0)
  have lu: "i < length (bodies ?u)"
    using len(1) by (simp add: fold_keeps[where P = "\<lambda>s. length (bodies s)"])
  have iu: "initBodies ?u = initBodies ?t"
    by (rule fold_keeps) simp
  have g: "getBody (int i) t = bodies t ! i" for t
    using assms(2) by (simp add: getBody_def BodyCount_def)
  have b: "bodies (reset ?t) ! i = bodies (resetBody i ?u) ! i"
    by (rule bodies_reset[OF assms(2)])
  have lc: "i < length (bodies (copyInitial i ?u))"
    using lu by simp
  have pc: "x (bodies (copyInitial i ?u) ! i) = px" "y (bodies (copyInitial i ?u) ! i) = py"
    using position_copyInitial[OF lu] by (simp_all add: iu ib)
  have acc: "ax (bodies (resetBody i ?u) ! i)
               = fst (computeAcceleration (copyInitial i ?u) i)
                 - px * calcPositionDamping px py (pos_damping ?t)"
    "ay (bodies (resetBody i ?u) ! i)
               = snd (computeAcceleration (copyInitial i ?u) i)
                 - py * calcPositionDamping px py (pos_damping ?t)"
    using acceleration_initBody[OF lc]
    by (simp_all only: resetBody_as_initBody[of i ?u] pc sizes_copyInitial pos_damping_resets)
  have lw: "i < length (bodies (writeBody i px py pvx pvy m s))"
    using len(3) by simp
  have acs: "ax (bodies ?c ! i)
               = fst (computeAcceleration (writeBody i px py pvx pvy m s) i)
                 - px * calcPositionDamping px py (pos_damping s)"
    "ay (bodies ?c ! i)
               = snd (computeAcceleration (writeBody i px py pvx pvy m s) i)
                 - py * calcPositionDamping px py (pos_damping s)"
    using acceleration_initBody[OF lw]
    by (simp_all only: setBody_as_initBody[OF assms(2)] position_writeBody[OF len(3)]
          sizes_writeBody)
  have pos: "x (bodies (resetBody i ?u) ! i) = px" "y (bodies (resetBody i ?u) ! i) = py"
    "vx (bodies (resetBody i ?u) ! i) = pvx" "vy (bodies (resetBody i ?u) ! i) = pvy"
    using bodies_resetBody_same[OF lu] by (simp_all add: iu ib)
  note posR = pos[folded b] and accR = acc[folded b]
  have m: "mass (bodies (reset ?t) ! i) = mass (bodies ?t ! i)"
    by simp
  have e: "bodies (reset ?t) ! i = bodies (initBody i (copyInitial i ?u)) ! i"
    using b by (simp only: resetBody_as_initBody[of i ?u])
  have ir: "initBodies (reset ?t) = initBodies ?t"
    by simp
  show ?thesis
    unfolding g by (intro conjI posR accR acs m e ir)
qed

lemma computeAcceleration_copyInitial_two:
  assumes "wellformed s"
  shows "computeAcceleration
           (copyInitial 0 (setBody 1 1 0 0 0 1 (setBody 0 0 0 0 0 1
              (execs [SetBodyCount 2, SetG 1, SetSoftening 0, SetBlackHole 0 0 0,
                      SetBody 1 0 0 0 0 0] s)))) 0 = (1, 0)"
proof -
  define s2 where "s2 = execs [SetBodyCount 2, SetG 1, SetSoftening 0, SetBlackHole 0 0 0,
                      SetBody 1 0 0 0 0 0] s"
  define t1 where "t1 = setBody 0 0 0 0 0 1 s2"
  define t2 where "t2 = setBody 1 1 0 0 0 1 t1"
  define pre2 where "pre2 = copyInitial 0 t2"
  have g2: "body_count s2 = 2" "G s2 = 1" "softening s2 = 0" "mass (blackHole s2) = 0"
    "length (bodies s2) = 10" "length (initBodies s2) = 10"
    using assms
    by (simp_all add: s2_def execs_def setBlackHole_def setSoftening_def setG_def setBodyCount_def
          BodyCount_def float_0_1_def wellformed_def literals)
  have len: "length (bodies t1) = 10" "length (bodies t2) = 10"
    using g2 by (simp_all add: t1_def t2_def)
  have i0: "initBodies t2 ! 0 = \<lparr>x = 0, y = 0, vx = 0, vy = 0, ax = 0, ay = 0, mass = 1\<rparr>"
    using g2 by (simp add: t1_def t2_def initBodies_setBody)
  have l2: "(1::nat) < 10" "1 < length (bodies t1)"
    using len by simp_all
  have b1: "x (bodies t2 ! 1) = 1" "y (bodies t2 ! 1) = 0" "mass (bodies t2 ! 1) = 1"
    using bodies_setBody_nat[OF l2, of 1 0 0 0 1] unfolding t2_def by (simp_all only: of_nat_1)
  have p2: "body_count pre2 = 2" "mass (blackHole pre2) = 0" "G pre2 = 1" "softening pre2 = 0"
    using g2 by (simp_all add: pre2_def copyInitial_def t1_def t2_def)
  have q: "x (bodies pre2 ! 0) = 0" "y (bodies pre2 ! 0) = 0"
    "x (bodies pre2 ! 1) = 1" "y (bodies pre2 ! 1) = 0" "mass (bodies pre2 ! 1) = 1"
    using len b1 by (simp_all add: pre2_def copyInitial_def i0 del: One_nat_def)
  have "accumulatePair pre2 (bodies pre2 ! 0) (bodies pre2 ! 1) (0, 0) = (1, 0)"
    by (rule accumulatePair_unit) (fact q p2)+
  then have "computeAcceleration pre2 0 = (1, 0)"
    unfolding computeAcceleration_pair(1)[OF p2(1,2)] .
  then show ?thesis
    by (simp only: pre2_def t2_def t1_def s2_def)
qed

theorem reset_restores_witness:
  "wellformed (execs [SetBodyCount 2, SetG 1, SetSoftening 0, SetBlackHole 0 0 0,
                      SetBody 1 0 0 0 0 0] (Gravity_new engine0)) \<and>
   (0::nat) < 10 \<and> \<not> configures 0 (SetBody 1 1 0 0 0 1) \<and>
   x (getBody 0 (reset (execs [SetBody 1 1 0 0 0 1]
        (setBody 0 0 0 0 0 1
           (execs [SetBodyCount 2, SetG 1, SetSoftening 0, SetBlackHole 0 0 0,
                   SetBody 1 0 0 0 0 0] (Gravity_new engine0)))))) = 0 \<and>
   ax (getBody 0 (reset (execs [SetBody 1 1 0 0 0 1]
        (setBody 0 0 0 0 0 1
           (execs [SetBodyCount 2, SetG 1, SetSoftening 0, SetBlackHole 0 0 0,
                   SetBody 1 0 0 0 0 0] (Gravity_new engine0)))))) = 1 \<and>
   ay (getBody 0 (reset (execs [SetBody 1 1 0 0 0 1]
        (setBody 0 0 0 0 0 1
           (execs [SetBodyCount 2, SetG 1, SetSoftening 0, SetBlackHole 0 0 0,
                   SetBody 1 0 0 0 0 0] (Gravity_new engine0)))))) = 0"
proof -
  define s where "s = execs [SetBodyCount 2, SetG 1, SetSoftening 0, SetBlackHole 0 0 0,
                      SetBody 1 0 0 0 0 0] (Gravity_new engine0)"
  have w0: "wellformed (Gravity_new engine0)"
    by (rule wellformed_Gravity_new[OF wellformed_engine0])
  then have w: "wellformed s"
    by (simp add: s_def)
  have c: "\<forall>c \<in> set [SetBody 1 1 0 0 0 1]. \<not> configures 0 c"
    by simp
  have l: "(0::nat) < 10" by simp
  have ca: "computeAcceleration (copyInitial 0 (setBody 1 1 0 0 0 1 (setBody 0 0 0 0 0 1 s))) 0
              = (1, 0)"
    unfolding s_def by (rule computeAcceleration_copyInitial_two[OF w0])
  note r = reset_restores[OF w l c, of 0 0 0 0 1, unfolded of_nat_0]
  have e: "execs [SetBody 1 1 0 0 0 1] (setBody 0 0 0 0 0 1 s)
             = setBody 1 1 0 0 0 1 (setBody 0 0 0 0 0 1 s)"
    by (simp add: execs_def)
  have pd: "pos_damping s = Fin (4722366482869645 / 2361183241434822606848)"
    unfolding s_def
    by (simp add: execs_def setBodyCount_def setG_def setSoftening_def setBlackHole_def
          pos_damping_Gravity_new)
  note dz = damping_at_origin[OF fin_posDamping_0_02]
  from r have a:
    "x (getBody 0 (reset (execs [SetBody 1 1 0 0 0 1] (setBody 0 0 0 0 0 1 s)))) = 0"
    by (rule conjunct1)
  from r have
    "ax (getBody 0 (reset (execs [SetBody 1 1 0 0 0 1] (setBody 0 0 0 0 0 1 s))))
       = fst (computeAcceleration
                (copyInitial 0 (fold resetBody [0..<0]
                   (execs [SetBody 1 1 0 0 0 1] (setBody 0 0 0 0 0 1 s)))) 0)
         - 0 * calcPositionDamping 0 0
                 (pos_damping (execs [SetBody 1 1 0 0 0 1] (setBody 0 0 0 0 0 1 s)))"
    by blast
  then have b:
    "ax (getBody 0 (reset (execs [SetBody 1 1 0 0 0 1] (setBody 0 0 0 0 0 1 s)))) = 1"
    by (simp add: e[simplified] ca[simplified] pd dz fin_1)
  from r have
    "ay (getBody 0 (reset (execs [SetBody 1 1 0 0 0 1] (setBody 0 0 0 0 0 1 s))))
       = snd (computeAcceleration
                (copyInitial 0 (fold resetBody [0..<0]
                   (execs [SetBody 1 1 0 0 0 1] (setBody 0 0 0 0 0 1 s)))) 0)
         - 0 * calcPositionDamping 0 0
                 (pos_damping (execs [SetBody 1 1 0 0 0 1] (setBody 0 0 0 0 0 1 s)))"
    by blast
  then have d:
    "ay (getBody 0 (reset (execs [SetBody 1 1 0 0 0 1] (setBody 0 0 0 0 0 1 s)))) = 0"
    by (simp add: e[simplified] ca[simplified] pd dz)
  from a b d w show ?thesis
    unfolding s_def by simp
qed
section \<open>The guard of the force computation\<close>

text \<open>
  For two bodies at the same finite coordinates the relative position is \<open>(0, 0)\<close> and the
  softened squared distance is the rounded square of the softening: a number that is
  not negative, or infinity when the square overflows.
\<close>

lemma fin_nonneg:
  assumes "0 \<le> r"
  shows "fin r = PInf \<or> (\<exists>w. fin r = Fin w \<and> 0 \<le> w)"
  using rnd_nonneg[OF assms] DBL_MAX_pos by (simp add: fin_def)

lemma coincident_vector:
  assumes "x b1 = Fin px" "x b2 = Fin px" "y b1 = Fin py" "y b2 = Fin py"
  shows "calcRelativePositionVector (x b1) (y b1) (x b2) (y b2) = (Fin 0, Fin 0)"
  using assms by (simp add: calcRelativePositionVector_def)

lemma coincident_softenedDistSqr:
  assumes "x b1 = Fin px" "x b2 = Fin px" "y b1 = Fin py" "y b2 = Fin py"
  shows "softenedDistSqr (Fin sf) b1 b2 = PInf
         \<or> (\<exists>d. softenedDistSqr (Fin sf) b1 b2 = Fin d \<and> 0 \<le> d)"
proof (cases "sf < 0")
  case True
  then have "softenedDistSqr (Fin sf) b1 b2 = Fin 0"
    by (simp add: softenedDistSqr_def coincident_vector[OF assms] calcEuclideanDistance_def
          std_max_def Let_def)
  then show ?thesis by simp
next
  case False
  then have d: "softenedDistSqr (Fin sf) b1 b2 = Fin 0 + fin (sf * sf)"
    by (simp add: softenedDistSqr_def coincident_vector[OF assms] calcEuclideanDistance_def
          std_max_def Let_def)
  have "0 \<le> sf * sf" by simp
  from fin_nonneg[OF this] show ?thesis
  proof
    assume "fin (sf * sf) = PInf"
    then show ?thesis by (simp add: d plus_double_def)
  next
    assume "\<exists>w. fin (sf * sf) = Fin w \<and> 0 \<le> w"
    then obtain w where w: "fin (sf * sf) = Fin w" "0 \<le> w" by blast
    from fin_nonneg[OF w(2)] show ?thesis by (simp add: d w(1))
  qed
qed

lemma divisor_bound:
  assumes "\<not> Fin d \<le> dbl 0.0" "\<not> Fin d < dbl 0.0001"
  shows "2 powi (- 7) \<le> rnd (sqrt d)"
proof -
  have "7378697629483821 / 73786976294838206464 \<le> d"
    using assms(2) by (simp add: literals)
  then have "(2 powi (- 7))\<^sup>2 \<le> d"
    by (simp add: power2_eq_square)
  then have "2 powi (- 7) \<le> sqrt d" by (rule real_le_rsqrt)
  then show ?thesis by (rule rnd_ge_pow) simp
qed

lemma divisor_nonzero:
  assumes "\<not> pairSkipped sf b1 b2"
  shows "dsqrt (softenedDistSqr sf b1 b2) \<noteq> 0"
proof (cases "softenedDistSqr sf b1 b2")
  case (Fin d)
  have n: "\<not> Fin d \<le> dbl 0.0" "\<not> Fin d < dbl 0.0001"
    using assms by (simp_all add: pairSkipped_def Fin)
  then have "0 \<le> d" by simp
  moreover have "0 < rnd (sqrt d)"
    using divisor_bound[OF n] by (smt (verit) zero_less_power_int)
  ultimately show ?thesis by (simp add: Fin)
next
  case PInf
  then show ?thesis by simp
next
  case NInf
  then show ?thesis using assms by (simp add: pairSkipped_def less_eq_double_def)
next
  case NaN
  then show ?thesis by simp
qed

lemma cube_finite:
  assumes "\<not> pairSkipped sf b1 b2"
    "softenedDistSqr sf b1 b2 = PInf \<or> (\<exists>d. softenedDistSqr sf b1 b2 = Fin d \<and> 0 \<le> d)"
  shows "\<exists>w. dbl 1.0 / dsqrt (softenedDistSqr sf b1 b2) * (dbl 1.0 / dsqrt (softenedDistSqr sf b1 b2))
               * (dbl 1.0 / dsqrt (softenedDistSqr sf b1 b2)) = Fin w"
  using assms(2)
proof
  assume "softenedDistSqr sf b1 b2 = PInf"
  then show ?thesis by (simp add: divide_double_def)
next
  assume "\<exists>d. softenedDistSqr sf b1 b2 = Fin d \<and> 0 \<le> d"
  then obtain d where d: "softenedDistSqr sf b1 b2 = Fin d" "0 \<le> d" by blast
  have n: "\<not> Fin d \<le> dbl 0.0" "\<not> Fin d < dbl 0.0001"
    using assms(1) by (simp_all add: pairSkipped_def d)
  let ?q = "rnd (sqrt d)"
  note b = divisor_bound[OF n]
  have q: "0 < ?q" using b by (smt (verit) zero_less_power_int)
  have "1 / ?q \<le> 1 / 2 powi (- 7)"
    using b by (intro divide_left_mono) simp_all
  then have "1 / ?q \<le> 2 powi 7" by (simp add: power_int_minus)
  moreover have "0 \<le> 1 / ?q" using q by simp
  ultimately obtain w where w: "fin (1 / ?q) = Fin w" "0 \<le> w" "w \<le> 2 powi 7"
    using fin_bounded[of "1 / ?q" 7] by auto
  have "w * w \<le> 2 powi 7 * 2 powi 7" using w(2,3) by (intro mult_mono) simp_all
  then have "w * w \<le> 2 powi 14" by simp
  moreover have "0 \<le> w * w" by simp
  ultimately obtain w2 where w2: "fin (w * w) = Fin w2" "0 \<le> w2" "w2 \<le> 2 powi 14"
    using fin_bounded[of "w * w" 14] by auto
  have "w2 * w \<le> 2 powi 14 * 2 powi 7" using w(2,3) w2(2,3) by (intro mult_mono) simp_all
  then have "w2 * w \<le> 2 powi 21" by simp
  moreover have "0 \<le> w2 * w" using w(2) w2(2) by simp
  ultimately obtain w3 where w3: "fin (w2 * w) = Fin w3"
    using fin_bounded[of "w2 * w" 21] by auto
  show ?thesis using q d(2) by (simp add: d(1) w(1) w2(1) w3)
qed

lemma accumulatePair_coincident:
  assumes "x b1 = Fin px" "x b2 = Fin px" "y b1 = Fin py" "y b2 = Fin py"
    "softening s = Fin sf" "G s * mass b2 = Fin gm"
  shows "accumulatePair s b1 b2 (0, 0) = (0, 0)"
proof (cases "pairSkipped (softening s) b1 b2")
  case True
  then show ?thesis by (simp add: accumulatePair_def Let_def)
next
  case False
  obtain w where w: "dbl 1.0 / dsqrt (softenedDistSqr (softening s) b1 b2)
               * (dbl 1.0 / dsqrt (softenedDistSqr (softening s) b1 b2))
               * (dbl 1.0 / dsqrt (softenedDistSqr (softening s) b1 b2)) = Fin w"
    using cube_finite[OF False] coincident_softenedDistSqr[OF assms(1-4), of sf] assms(5)
    by auto
  show ?thesis
    using False
    by (simp add: accumulatePair_def Let_def coincident_vector[OF assms(1-4)] assms(6)
          w[simplified])
qed


text \<open>
  Two active bodies at the same finite coordinates, a finite softening and no black
  hole: each body sees one pair, and that pair adds nothing.
\<close>

lemma computeAcceleration_two_coincident:
  assumes "body_count s = 2" "mass (blackHole s) = 0"
    "x (bodies s ! 0) = Fin px" "x (bodies s ! 1) = Fin px"
    "y (bodies s ! 0) = Fin py" "y (bodies s ! 1) = Fin py"
    "softening s = Fin sf" "G s * mass (bodies s ! 0) = Fin g0" "G s * mass (bodies s ! 1) = Fin g1"
  shows "computeAcceleration s 0 = (0, 0)" "computeAcceleration s 1 = (0, 0)"
  unfolding computeAcceleration_pair[OF assms(1,2)]
  by (rule accumulatePair_coincident[OF assms(3,4,5,6,7,9)]
           accumulatePair_coincident[OF assms(4,3,6,5,7,8)])+





text \<open>The pair of \<open>heavy_pair\<close>, evaluated.\<close>

lemma PInf_times_zero: "PInf * Fin 0 = NaN"
  by (simp add: times_double_def)

lemma sqrt_quarter: "sqrt (1 / 4) = 1 / 2"
  by (rule real_sqrt_unique) (simp_all add: power2_eq_square)

lemma accumulatePair_overflow:
  assumes "x b1 = Fin px" "x b2 = Fin px" "y b1 = Fin py" "y b2 = Fin py"
    "softening s = Fin (1 / 2)" "G s * mass b2 = PInf"
  shows "accumulatePair s b1 b2 (0, 0) = (NaN, NaN)"
proof -
  have d: "softenedDistSqr (Fin (1 / 2)) b1 b2 = Fin (1 / 4)"
    by (simp add: softenedDistSqr_def coincident_vector[OF assms(1-4)] calcEuclideanDistance_def
          std_max_def Let_def fin_quarter)
  show ?thesis
    by (simp add: accumulatePair_def pairSkipped_def Let_def coincident_vector[OF assms(1-4)]
          assms(5,6) d sqrt_quarter rnd_half literals fin_2 fin_4 fin_8 PInf_times_zero)
qed

lemma overflow_10: "Fin 10 * Fin (2 ^ 1022) = PInf"
  by (simp add: fin_overflow)

lemma heavy_pair_overflow:
  "body_count heavy_pair = 2"
  "x (bodies heavy_pair ! 0) = 0" "y (bodies heavy_pair ! 0) = 0"
  "x (bodies heavy_pair ! 1) = 0" "y (bodies heavy_pair ! 1) = 0"
  "mass (bodies heavy_pair ! 0) = Fin (2 ^ 1022)" "mass (bodies heavy_pair ! 1) = Fin (2 ^ 1022)"
  "computeAcceleration heavy_pair 0 = (NaN, NaN)"
  "computeAcceleration heavy_pair 1 = (NaN, NaN)"
  "ax (bodies heavy_pair ! 1) = NaN"
proof -
  define s5 where "s5 = setBlackHole 0 0 0 (setSoftening (dbl 0.5) (setG (dbl 10)
                          (setBodyCount 2 (Gravity_new engine0))))"
  define t1 where "t1 = setBody 0 0 0 0 0 (Fin (2 ^ 1022)) s5"
  define w where "w = writeBody 1 0 0 0 0 (Fin (2 ^ 1022)) t1"
  have hp: "heavy_pair = setBody 1 0 0 0 0 (Fin (2 ^ 1022)) t1"
    by (simp add: heavy_pair_def execs_def t1_def s5_def)
  have wf: "wellformed (Gravity_new engine0)"
    by (rule wellformed_Gravity_new[OF wellformed_engine0])
  have f: "body_count s5 = 2" "G s5 = Fin 10" "softening s5 = Fin (1 / 2)"
    "mass (blackHole s5) = 0" "length (bodies s5) = 10" "length (initBodies s5) = 10"
    using wf
    by (simp_all add: s5_def setBlackHole_def setSoftening_def setG_def setBodyCount_def
          BodyCount_def float_0_1_def wellformed_def literals)
  have g: "body_count t1 = 2" "G t1 = Fin 10" "softening t1 = Fin (1 / 2)"
    "mass (blackHole t1) = 0" "length (bodies t1) = 10"
    using f by (simp_all add: t1_def)
  have l0: "(0::nat) < 10" "0 < length (bodies s5)" using f by simp_all
  have b0: "x (bodies t1 ! 0) = 0" "y (bodies t1 ! 0) = 0" "mass (bodies t1 ! 0) = Fin (2 ^ 1022)"
    using bodies_setBody_nat[OF l0, of 0 0 0 0 "Fin (2 ^ 1022)"] unfolding t1_def
    by (simp_all only: of_nat_0)
  have l1: "(1::nat) < 10" "1 < length (bodies t1)" using g by simp_all
  have b1: "x (bodies heavy_pair ! 1) = 0" "y (bodies heavy_pair ! 1) = 0"
    "mass (bodies heavy_pair ! 1) = Fin (2 ^ 1022)"
    using bodies_setBody_nat[OF l1, of 0 0 0 0 "Fin (2 ^ 1022)"] unfolding hp
    by (simp_all only: of_nat_1)
  have b0': "x (bodies heavy_pair ! 0) = 0" "y (bodies heavy_pair ! 0) = 0"
    "mass (bodies heavy_pair ! 0) = Fin (2 ^ 1022)"
    using b0 by (simp_all add: hp bodies_setBody_other)
  have h: "body_count heavy_pair = 2" "G heavy_pair = Fin 10" "softening heavy_pair = Fin (1 / 2)"
    "mass (blackHole heavy_pair) = 0"
    using g by (simp_all add: hp)
  have o: "G heavy_pair * mass (bodies heavy_pair ! 0) = PInf"
    "G heavy_pair * mass (bodies heavy_pair ! 1) = PInf"
    unfolding h b0' b1 by (rule overflow_10)+
  have z: "(0::double) = Fin 0" by simp
  have c0: "computeAcceleration heavy_pair 0 = (NaN, NaN)"
    unfolding computeAcceleration_pair[OF h(1,4)]
    by (rule accumulatePair_overflow[where px = 0 and py = 0, OF _ _ _ _ h(3) o(2)])
       (simp_all only: b0' b1 z)
  have c1: "computeAcceleration heavy_pair 1 = (NaN, NaN)"
    unfolding computeAcceleration_pair[OF h(1,4)]
    by (rule accumulatePair_overflow[where px = 0 and py = 0, OF _ _ _ _ h(3) o(1)])
       (simp_all only: b0' b1 z)
  have hw: "heavy_pair = initBody 1 w"
    unfolding hp w_def using setBody_as_initBody[of 1 0 0 0 0 "Fin (2 ^ 1022)" t1] by simp
  have wp: "body_count w = 2" "G w = Fin 10" "softening w = Fin (1 / 2)" "mass (blackHole w) = 0"
    "1 < length (bodies w)"
    using g by (simp_all add: w_def writeBody_def)
  have wb: "x (bodies w ! 0) = 0" "y (bodies w ! 0) = 0" "mass (bodies w ! 0) = Fin (2 ^ 1022)"
    "x (bodies w ! 1) = 0" "y (bodies w ! 1) = 0"
    using b0 g by (simp_all add: w_def writeBody_def del: One_nat_def)
  have ow: "G w * mass (bodies w ! 0) = PInf"
    unfolding wp wb by (rule overflow_10)
  have cw: "computeAcceleration w 1 = (NaN, NaN)"
    unfolding computeAcceleration_pair[OF wp(1,4)]
    by (rule accumulatePair_overflow[where px = 0 and py = 0, OF _ _ _ _ wp(3) ow])
       (simp_all only: wb z)
  have a: "ax (bodies heavy_pair ! 1) = NaN"
    unfolding hw acceleration_initBody(1)[OF wp(5)] cw by simp
  show "body_count heavy_pair = 2" by (rule h)
  show "x (bodies heavy_pair ! 0) = 0" "y (bodies heavy_pair ! 0) = 0"
    "x (bodies heavy_pair ! 1) = 0" "y (bodies heavy_pair ! 1) = 0"
    "mass (bodies heavy_pair ! 0) = Fin (2 ^ 1022)" "mass (bodies heavy_pair ! 1) = Fin (2 ^ 1022)"
    by (rule b0' b1)+
  show "computeAcceleration heavy_pair 0 = (NaN, NaN)" by (rule c0)
  show "computeAcceleration heavy_pair 1 = (NaN, NaN)" by (rule c1)
  show "ax (bodies heavy_pair ! 1) = NaN" by (rule a)
qed

section \<open>Changing a mass at simulation time\<close>



lemma mass_setBodyMass_reset:
  assumes "0 \<le> index" "index \<le> 9" "dbl 0.1 \<le> m" "m \<le> dbl 30"
    "nat index < length (bodies s)"
  shows "mass (bodies (reset (setBodyMass index m s)) ! nat index) = m"
  using assms by (simp add: setBodyMass_def BodyCount_def double_le_not_less)


section \<open>The parameter setters\<close>

lemma setters_reject:
  "g < dbl 0.0 \<or> dbl 10.0 < g \<Longrightarrow> setG g s = s"
  "d \<le> dbl 0.0 \<or> dbl 0.1 < d \<Longrightarrow> setDt d s = s"
  "pd < dbl 0.0 \<or> dbl 0.1 < pd \<Longrightarrow> setPosDamping pd s = s"
  "vd < dbl 0.0 \<or> dbl 0.5 < vd \<Longrightarrow> setVelDamping vd s = s"
  "sf < dbl 0.0 \<or> dbl 5.0 < sf \<Longrightarrow> setSoftening sf s = s"
  "v < dbl 0.1 \<or> dbl 1000.0 < v \<Longrightarrow> setVmin v s = s"
  "w < dbl 1.0 \<or> dbl 10000.0 < w \<Longrightarrow> setVmax w s = s"
  "n < 2 \<or> 10 < n \<Longrightarrow> setBodyCount n s = s"
  "i < 0 \<or> 9 < i \<or> m < dbl 0.1 \<or> dbl 30 < m \<Longrightarrow> setBodyMass i m s = s"
  "px < dbl (- 500) \<or> dbl 500 < px \<or> py < dbl (- 500) \<or> dbl 500 < py \<or> bm < dbl 0
     \<or> dbl 10000 < bm \<Longrightarrow> setBlackHole px py bm s = s"
  by (auto simp: setG_def setDt_def setPosDamping_def setVelDamping_def setSoftening_def
        setVmin_def setVmax_def setBodyCount_def setBodyMass_def setBlackHole_def BodyCount_def)

lemma setters_store:
  "dbl 0.0 \<le> g \<Longrightarrow> g \<le> dbl 10.0
     \<Longrightarrow> getG (setG g s) = (if g < float_0_1 then dbl 0.1 else g)"
  "dbl 0.0 < d \<Longrightarrow> d \<le> dbl 0.1 \<Longrightarrow> getDt (setDt d s) = d"
  "dbl 0.0 \<le> pd \<Longrightarrow> pd \<le> dbl 0.1
     \<Longrightarrow> getPosDamping (setPosDamping pd s) = pd / dbl 10000"
  "dbl 0.0 \<le> vd \<Longrightarrow> vd \<le> dbl 0.5 \<Longrightarrow> getVelDamping (setVelDamping vd s) = vd"
  "dbl 0.0 \<le> sf \<Longrightarrow> sf \<le> dbl 5.0 \<Longrightarrow> getSoftening (setSoftening sf s) = sf"
  "dbl 0.1 \<le> v \<Longrightarrow> v \<le> dbl 1000.0 \<Longrightarrow> getVmin (setVmin v s) = v"
  "dbl 1.0 \<le> w \<Longrightarrow> w \<le> dbl 10000.0 \<Longrightarrow> getVmax (setVmax w s) = w"
  "2 \<le> n \<Longrightarrow> n \<le> 10 \<Longrightarrow> getBodyCount (setBodyCount n s) = n"
  "dbl (- 500) \<le> px \<Longrightarrow> px \<le> dbl 500 \<Longrightarrow> dbl (- 500) \<le> py \<Longrightarrow> py \<le> dbl 500
     \<Longrightarrow> dbl 0 \<le> bm \<Longrightarrow> bm \<le> dbl 10000
     \<Longrightarrow> getBlackHole (setBlackHole px py bm s)
         = \<lparr>x = px, y = py, vx = dbl 0, vy = dbl 0, ax = dbl 0, ay = dbl 0, mass = bm\<rparr>"
  by (auto simp: setG_def setDt_def setPosDamping_def setVelDamping_def setSoftening_def
        setVmin_def setVmax_def setBodyCount_def setBlackHole_def BodyCount_def Let_def
        getG_def getDt_def getPosDamping_def getVelDamping_def getSoftening_def getVmin_def
        getVmax_def getBodyCount_def getBlackHole_def Body_overwrite
        dest: double_le_not_less double_less_not_le)

text \<open>
  Claim C2 says that \<open>setG\<close> stores \<open>max(g, 0.1)\<close> for an argument in range. The source
  compares \<open>g\<close> with the single-precision constant \<open>0.1f\<close>, which is larger than \<open>0.1\<close>,
  and stores the double \<open>0.1\<close> when \<open>g\<close> is below it; an argument between \<open>0.1\<close> and
  \<open>0.1f\<close>, such as \<open>0.1000000005\<close>, is replaced by \<open>0.1\<close> although it is the larger of
  the two.
\<close>

theorem setG_single_precision_threshold:
  "dbl 0 \<le> dbl 0.1000000005 \<and> dbl 0.1000000005 \<le> dbl 10 \<and>
   getG (setG (dbl 0.1000000005) s) = dbl 0.1 \<and>
   std_max (dbl 0.1000000005) (dbl 0.1) = dbl 0.1000000005 \<and>
   getG (setG (dbl 0.1000000005) s) \<noteq> std_max (dbl 0.1000000005) (dbl 0.1)"
  by (simp add: setG_def getG_def float_0_1_def std_max_def literals)

end
